theory Spec2Isabelle
  imports Complex_Main
begin

section \<open>Tables: the data read from the benchmark CSV files\<close>

text \<open>
  \<^verbatim>\<open>generate_graphs.py\<close> reads CSV files into pandas data frames and only ever uses
  them through \<^verbatim>\<open>df[col]\<close>, \<^verbatim>\<open>df[df[col] == n]\<close>, \<^verbatim>\<open>df.empty\<close> and
  \<^verbatim>\<open>df.groupby(key)[col].last()\<close>. A data frame is modelled as its list of column
  names and its rows in file order; a cell is a number or missing (\<open>NA\<close>, pandas' NaN,
  which is what an empty CSV field is read as). Numbers are never computed with, only
  compared and copied, so they are kept as exact reals.
\<close>

datatype cell = NA | Num real

record dataframe =
  columns :: "string list"
  rows :: "cell list list"

datatype error =
    FileNotFoundError string
  | IsADirectoryError string
  | NotADirectoryError string
  | FileExistsError string
  | ParserError string
  | KeyError string
  | ValueError string

text \<open>Sequencing of computations that may raise: the first error wins.\<close>

definition and_then :: "error + 'a \<Rightarrow> ('a \<Rightarrow> error + 'b) \<Rightarrow> error + 'b" where
  "and_then r f = (case r of Inl e \<Rightarrow> Inl e | Inr x \<Rightarrow> f x)"

fun column_index :: "string \<Rightarrow> string list \<Rightarrow> nat option" where
  "column_index name [] = None"
| "column_index name (c # cs) =
     (if c = name then Some 0 else map_option Suc (column_index name cs))"

text \<open>A row shorter than the header is padded with missing cells, as \<^verbatim>\<open>read_csv\<close> does.\<close>

definition cell_at :: "nat \<Rightarrow> cell list \<Rightarrow> cell" where
  "cell_at i r = (if i < length r then r ! i else NA)"

text \<open>\<^verbatim>\<open>df[name]\<close>: the cells of one column in row order; KeyError when there is no such column.\<close>

definition get_column :: "dataframe \<Rightarrow> string \<Rightarrow> error + cell list" where
  "get_column df name =
     (case column_index name (columns df) of
        None \<Rightarrow> Inl (KeyError name)
      | Some i \<Rightarrow> Inr (map (cell_at i) (rows df)))"

subsection \<open>The Aggregator: \<^verbatim>\<open>groupby(key)[col].last()\<close>\<close>

text \<open>
  \<^verbatim>\<open>groupby\<close> is called with its defaults: \<^verbatim>\<open>sort=True\<close> (the group keys of the result
  are sorted) and \<^verbatim>\<open>dropna=True\<close> (rows whose key is missing belong to no group).
  \<^verbatim>\<open>last()\<close> gives, for each group, the last entry of the column that is not missing,
  and a missing value when the group has none.
\<close>

fun present_keys :: "cell list \<Rightarrow> real list" where
  "present_keys [] = []"
| "present_keys (NA # ks) = present_keys ks"
| "present_keys (Num k # ks) = k # present_keys ks"

definition group_keys :: "cell list \<Rightarrow> real list" where
  "group_keys ks = sort (remdups (present_keys ks))"

text \<open>The column's cells in the rows whose key is \<open>k\<close>, in row order.\<close>

fun group_cells :: "real \<Rightarrow> cell list \<Rightarrow> cell list \<Rightarrow> cell list" where
  "group_cells k (key # ks) (v # vs) =
     (if key = Num k then v # group_cells k ks vs else group_cells k ks vs)"
| "group_cells k _ _ = []"

fun last_valid :: "cell list \<Rightarrow> cell" where
  "last_valid [] = NA"
| "last_valid (v # vs) = (case last_valid vs of NA \<Rightarrow> v | Num x \<Rightarrow> Num x)"

text \<open>A pandas Series: index and values, as a list of pairs in index order.\<close>

type_synonym series = "(real \<times> cell) list"

definition index :: "series \<Rightarrow> real list" where
  "index s = map fst s"

definition values_of :: "series \<Rightarrow> cell list" where
  "values_of s = map snd s"

definition group_last :: "cell list \<Rightarrow> cell list \<Rightarrow> series" where
  "group_last ks vs = map (\<lambda>k. (k, last_valid (group_cells k ks vs))) (group_keys ks)"

definition groupby_last :: "dataframe \<Rightarrow> string \<Rightarrow> string \<Rightarrow> error + series" where
  "groupby_last df key col =
     and_then (get_column df key) (\<lambda>ks.
     and_then (get_column df col) (\<lambda>vs.
     Inr (group_last ks vs)))"

text \<open>\<^verbatim>\<open>df[df[col] == n]\<close>: the rows whose cell in the column equals the integer \<open>n\<close>.\<close>

definition select_eq :: "dataframe \<Rightarrow> string \<Rightarrow> int \<Rightarrow> error + dataframe" where
  "select_eq df col n =
     and_then (get_column df col) (\<lambda>cs.
     let mask = map (\<lambda>c. c = Num (of_int n)) cs
     in Inr (df\<lparr>rows := map fst (filter snd (zip (rows df) mask))\<rparr>))"

definition empty :: "dataframe \<Rightarrow> bool" where
  "empty df \<longleftrightarrow> rows df = [] \<or> columns df = []"

section \<open>Charts\<close>

text \<open>
  A figure collects the error-bar series and the axis settings it is given and
  \<^verbatim>\<open>savefig\<close> writes it out. A chart is the record of those calls.
\<close>

record errorbar =
  x_data :: "real list"
  y_data :: "cell list"
  yerr :: "cell list"
  fmt :: string
  label :: string

record chart =
  figsize :: "nat \<times> nat"
  bars :: "errorbar list"
  xscale :: string
  yscale :: string
  xlabel :: string
  ylabel :: string
  title :: string
  grid :: bool
  legend :: bool

text \<open>
  \<^verbatim>\<open>plt.errorbar(x, y, yerr=..., fmt=..., label=...)\<close> adds a series to the figure. It
  refuses error bars with a negative entry (ValueError); missing entries pass. This is
  the only check of the plotting library that is modelled: what drawing does with data
  that a logarithmic axis cannot show is not, and the theorems about written charts
  speak of tables with positive measurements.
\<close>

definition negative_cell :: "cell \<Rightarrow> bool" where
  "negative_cell c = (case c of NA \<Rightarrow> False | Num v \<Rightarrow> v < 0)"

definition plt_errorbar ::
  "real list \<Rightarrow> cell list \<Rightarrow> cell list \<Rightarrow> string \<Rightarrow> string \<Rightarrow> error + errorbar" where
  "plt_errorbar x y err f l =
     (if list_ex negative_cell err then Inl (ValueError ''yerr must not contain negative values'')
      else Inr \<lparr>x_data = x, y_data = y, yerr = err, fmt = f, label = l\<rparr>)"

subsection \<open>Number formatting: the format specification \<^verbatim>\<open>.Nf\<close>\<close>

text \<open>
  \<^verbatim>\<open>f'{x:.Nf}'\<close> prints \<open>x\<close> rounded to \<open>N\<close> decimals, ties to even, with the decimal
  point left out when \<open>N = 0\<close>. The values formatted here are \<^verbatim>\<open>io_size/1024\<close> for an
  integer \<^verbatim>\<open>io_size\<close>: a division by a power of two, exact in floating point.
\<close>

definition round_half_even :: "real \<Rightarrow> int" where
  "round_half_even x =
     (let f = \<lfloor>x\<rfloor>; r = x - of_int f
      in if r < 1 / 2 then f else if 1 / 2 < r then f + 1 else if even f then f else f + 1)"

fun digits :: "nat \<Rightarrow> string" where
  "digits n = (if n < 10 then [''0123456789'' ! n]
               else digits (n div 10) @ [''0123456789'' ! (n mod 10)])"

definition format_f :: "nat \<Rightarrow> real \<Rightarrow> string" where
  "format_f d x =
     (let s = digits (nat (round_half_even (\<bar>x\<bar> * 10 ^ d)));
          p = replicate (Suc d - length s) (CHR ''0'') @ s;
          whole = take (length p - d) p;
          frac = drop (length p - d) p
      in (if x < 0 then ''-'' else []) @ whole @ (if d = 0 then [] else ''.'' @ frac))"

section \<open>The file system\<close>

text \<open>
  A path string names a node by its components, the parts between slashes. The file
  system maps the component lists of its nodes to directories and files; the empty
  component list is the directory all paths start from (the script only uses paths
  relative to its working directory). Components are taken as they are written: \<open>.\<close>
  and \<open>..\<close> are not resolved. A file holds a table (a CSV file) or a chart (a PNG
  file); permissions are not modelled.
\<close>

type_synonym path = "string list"

datatype content = Csv dataframe | Png chart

datatype node = Dir | File content

type_synonym filesystem = "path \<Rightarrow> node option"

fun components :: "string \<Rightarrow> string \<Rightarrow> path" where
  "components cur [] = (if cur = [] then [] else [cur])"
| "components cur (c # cs) =
     (if c = CHR ''/'' then (if cur = [] then components [] cs else cur # components [] cs)
      else components (cur @ [c]) cs)"

definition split_path :: "string \<Rightarrow> path" where
  "split_path s = components [] s"

definition node_at :: "filesystem \<Rightarrow> path \<Rightarrow> node option" where
  "node_at fs p = (if p = [] then Some Dir else fs p)"

text \<open>A computation on the file system that may raise: the result and the file system left behind.\<close>

type_synonym 'a run = "filesystem \<Rightarrow> (error + 'a) \<times> filesystem"

definition seq_run :: "'a run \<Rightarrow> ('a \<Rightarrow> 'b run) \<Rightarrow> 'b run" where
  "seq_run m f fs = (case m fs of (Inl e, fs') \<Rightarrow> (Inl e, fs') | (Inr x, fs') \<Rightarrow> f x fs')"

definition raise_or_return :: "error + 'a \<Rightarrow> 'a run" where
  "raise_or_return r fs = (r, fs)"

subsection \<open>\<^verbatim>\<open>os.makedirs(name, exist_ok=True)\<close>\<close>

text \<open>
  Walks down the components of the name and creates each directory that is missing. An
  existing directory is accepted; an existing file in the way is an error (of the final
  component FileExistsError, of an earlier one NotADirectoryError), raised before
  anything is created below it. The empty name is refused.
\<close>

fun mkdir_chain :: "string \<Rightarrow> path \<Rightarrow> string list \<Rightarrow> filesystem \<Rightarrow> error + filesystem" where
  "mkdir_chain name pre [] fs = Inr fs"
| "mkdir_chain name pre (c # cs) fs =
     (case fs (pre @ [c]) of
        None \<Rightarrow> mkdir_chain name (pre @ [c]) cs (fs(pre @ [c] \<mapsto> Dir))
      | Some Dir \<Rightarrow> mkdir_chain name (pre @ [c]) cs fs
      | Some (File _) \<Rightarrow>
          Inl (if cs = [] then FileExistsError name else NotADirectoryError name))"

definition makedirs :: "string \<Rightarrow> unit run" where
  "makedirs name fs =
     (if name = [] then (Inl (FileNotFoundError name), fs)
      else case mkdir_chain name [] (split_path name) fs of
             Inl e \<Rightarrow> (Inl e, fs)
           | Inr fs' \<Rightarrow> (Inr (), fs'))"

subsection \<open>Reading and writing files\<close>

definition load_data :: "string \<Rightarrow> dataframe run" where
  "load_data filepath fs =
     (case node_at fs (split_path filepath) of
        None \<Rightarrow> (Inl (FileNotFoundError filepath), fs)
      | Some Dir \<Rightarrow> (Inl (IsADirectoryError filepath), fs)
      | Some (File (Csv df)) \<Rightarrow> (Inr df, fs)
      | Some (File (Png _)) \<Rightarrow> (Inl (ParserError filepath), fs))"

definition savefig :: "string \<Rightarrow> chart \<Rightarrow> unit run" where
  "savefig fname c fs =
     (let p = split_path fname
      in if p = [] then (Inl (IsADirectoryError fname), fs)
         else case node_at fs (butlast p) of
                None \<Rightarrow> (Inl (FileNotFoundError fname), fs)
              | Some (File _) \<Rightarrow> (Inl (NotADirectoryError fname), fs)
              | Some Dir \<Rightarrow>
                  (case fs p of
                     Some Dir \<Rightarrow> (Inl (IsADirectoryError fname), fs)
                   | _ \<Rightarrow> (Inr (), fs(p \<mapsto> File (Png c)))))"

section \<open>The renderers\<close>

definition io_size_chart :: "dataframe \<Rightarrow> dataframe \<Rightarrow> string \<Rightarrow> string \<Rightarrow> error + chart" where
  "io_size_chart seq_data random_data operation device =
     and_then (groupby_last seq_data ''io_size'' ''mean'') (\<lambda>means.
     and_then (groupby_last seq_data ''io_size'' ''ci95'') (\<lambda>ci95.
     and_then (plt_errorbar (index means) (values_of means) (values_of ci95)
                 ''o-'' ''Sequential'') (\<lambda>b1.
     and_then (groupby_last random_data ''io_size'' ''mean'') (\<lambda>means.
     and_then (groupby_last random_data ''io_size'' ''ci95'') (\<lambda>ci95.
     and_then (plt_errorbar (index means) (values_of means) (values_of ci95)
                 ''o-'' ''Random'') (\<lambda>b2.
     Inr \<lparr>figsize = (12, 6), bars = [b1, b2], xscale = ''log'', yscale = ''log'',
          xlabel = ''I/O Size (bytes)'', ylabel = ''Throughput (MB/s)'',
          title = ''I/O Size vs Throughput - '' @ device @ '' '' @ operation,
          grid = True, legend = True\<rparr>))))))"

definition plot_io_size :: "dataframe \<Rightarrow> dataframe \<Rightarrow> string \<Rightarrow> string \<Rightarrow> string \<Rightarrow> unit run" where
  "plot_io_size seq_data random_data operation device output_dir =
     seq_run (raise_or_return (io_size_chart seq_data random_data operation device)) (\<lambda>c.
     savefig (output_dir @ ''/io_size_'' @ device @ ''_'' @ operation @ ''.png'') c)"

definition io_sizes :: "int list" where
  "io_sizes = [4096, 65536, 524288, 1048576, 10485760]"

definition series_label :: "int \<Rightarrow> string" where
  "series_label io_size = ''IO Size='' @ format_f 0 (of_int io_size / 1024) @ ''KB''"

text \<open>The body of the loop for an I/O size that has rows: the series it adds to the figure.\<close>

definition stride_series :: "dataframe \<Rightarrow> int \<Rightarrow> error + errorbar" where
  "stride_series data io_size =
     and_then (groupby_last data ''stride_size'' ''mean'') (\<lambda>means.
     and_then (groupby_last data ''stride_size'' ''ci95'') (\<lambda>ci95.
     plt_errorbar (index means) (values_of means) (values_of ci95) [] (series_label io_size)))"

text \<open>The loop over the representative I/O sizes; \<open>acc\<close> is the series drawn so far.\<close>

fun stride_bars :: "dataframe \<Rightarrow> int list \<Rightarrow> errorbar list \<Rightarrow> error + errorbar list" where
  "stride_bars stride_data [] acc = Inr acc"
| "stride_bars stride_data (io_size # rest) acc =
     and_then (select_eq stride_data ''io_size'' io_size) (\<lambda>data.
     if \<not> empty data then
       and_then (stride_series data io_size) (\<lambda>b. stride_bars stride_data rest (acc @ [b]))
     else stride_bars stride_data rest acc)"

definition stride_chart :: "dataframe \<Rightarrow> string \<Rightarrow> string \<Rightarrow> error + chart" where
  "stride_chart stride_data operation device =
     and_then (stride_bars stride_data io_sizes []) (\<lambda>bs.
     Inr \<lparr>figsize = (12, 6), bars = bs, xscale = ''log'', yscale = ''log'',
          xlabel = ''Stride Size (bytes)'', ylabel = ''Throughput (MB/s)'',
          title = ''Stride Size vs Throughput - '' @ device @ '' '' @ operation,
          grid = True, legend = True\<rparr>)"

definition plot_stride :: "dataframe \<Rightarrow> string \<Rightarrow> string \<Rightarrow> string \<Rightarrow> unit run" where
  "plot_stride stride_data operation device output_dir =
     seq_run (raise_or_return (stride_chart stride_data operation device)) (\<lambda>c.
     savefig (output_dir @ ''/stride_'' @ device @ ''_'' @ operation @ ''.png'') c)"

section \<open>The device orchestrator and the entry point\<close>

definition process_device :: "string \<Rightarrow> string \<Rightarrow> string \<Rightarrow> unit run" where
  "process_device device_dir device_name output_dir =
     seq_run (makedirs output_dir) (\<lambda>_.
     seq_run (load_data (device_dir @ ''/sequential_size_read.csv'')) (\<lambda>seq_read.
     seq_run (load_data (device_dir @ ''/sequential_size_write.csv'')) (\<lambda>seq_write.
     seq_run (load_data (device_dir @ ''/random_read.csv'')) (\<lambda>random_read.
     seq_run (load_data (device_dir @ ''/random_write.csv'')) (\<lambda>random_write.
     seq_run (load_data (device_dir @ ''/stride_read.csv'')) (\<lambda>stride_read.
     seq_run (load_data (device_dir @ ''/stride_write.csv'')) (\<lambda>stride_write.
     seq_run (plot_io_size seq_read random_read ''read'' device_name output_dir) (\<lambda>_.
     seq_run (plot_io_size seq_write random_write ''write'' device_name output_dir) (\<lambda>_.
     seq_run (plot_stride stride_read ''read'' device_name output_dir) (\<lambda>_.
     plot_stride stride_write ''write'' device_name output_dir))))))))))"

definition main :: "unit run" where
  "main =
     (let output_dir = ''benchmark_plots'' in
      seq_run (makedirs output_dir) (\<lambda>_.
      seq_run (process_device ''hdd_benchmark_results'' ''HDD'' output_dir) (\<lambda>_.
      process_device ''ssd_benchmark_results'' ''SSD'' output_dir)))"

section \<open>Specification-side notions\<close>

text \<open>\<^verbatim>\<open>s[k]\<close>: the entry of a series at a key.\<close>

definition aggregated_value :: "dataframe \<Rightarrow> string \<Rightarrow> real \<Rightarrow> string \<Rightarrow> error + cell" where
  "aggregated_value df key k col =
     and_then (groupby_last df key col) (\<lambda>s.
     case map_of s k of None \<Rightarrow> Inl (KeyError col) | Some v \<Rightarrow> Inr v)"

definition aggregated_keys :: "dataframe \<Rightarrow> string \<Rightarrow> string \<Rightarrow> error + real list" where
  "aggregated_keys df key col = and_then (groupby_last df key col) (\<lambda>s. Inr (index s))"

text \<open>
  Following the specification's words: the value of a column in the last row of the table
  whose grouping key is \<open>k\<close>.
\<close>

definition last_row_value :: "dataframe \<Rightarrow> string \<Rightarrow> real \<Rightarrow> string \<Rightarrow> error + cell" where
  "last_row_value df key k col =
     and_then (get_column df key) (\<lambda>ks.
     and_then (get_column df col) (\<lambda>vs.
     case group_cells k ks vs of [] \<Rightarrow> Inl (KeyError col) | c # cs \<Rightarrow> Inr (last (c # cs))))"

text \<open>
  Following the specification's words: the keys of a table in the order of their first
  appearance in the rows.
\<close>

fun first_occurrences :: "real list \<Rightarrow> real list" where
  "first_occurrences [] = []"
| "first_occurrences (k # ks) = k # filter (\<lambda>x. x \<noteq> k) (first_occurrences ks)"

definition first_appearance_order :: "cell list \<Rightarrow> real list" where
  "first_appearance_order ks = first_occurrences (present_keys ks)"

definition first_appearance_keys :: "dataframe \<Rightarrow> string \<Rightarrow> error + real list" where
  "first_appearance_keys df key =
     and_then (get_column df key) (\<lambda>ks. Inr (first_appearance_order ks))"

subsection \<open>Example tables\<close>

text \<open>Two rows for the I/O size 4096; the second has no mean (an empty field).\<close>

definition repeated_table :: dataframe where
  "repeated_table =
     \<lparr>columns = [''io_size'', ''mean'', ''ci95''],
      rows = [[Num 4096, Num 10, Num 1], [Num 4096, NA, Num 2]]\<rparr>"

text \<open>The specification's example: means 10 and then 20 for the I/O size 4096.\<close>

definition example_table :: dataframe where
  "example_table =
     \<lparr>columns = [''io_size'', ''mean'', ''ci95''],
      rows = [[Num 4096, Num 10, Num 1], [Num 4096, Num 20, Num 2]]\<rparr>"

text \<open>Rows written with the larger I/O size first.\<close>

definition descending_table :: dataframe where
  "descending_table =
     \<lparr>columns = [''io_size'', ''mean'', ''ci95''],
      rows = [[Num 65536, Num 5, Num 1], [Num 4096, Num 10, Num 1], [Num 65536, Num 7, Num 2]]\<rparr>"

subsection \<open>Notions for the stride chart\<close>

text \<open>The I/O size occurs in the \<open>io_size\<close> column \<open>cs\<close>: at least one row matches it.\<close>

definition has_rows :: "cell list \<Rightarrow> int \<Rightarrow> bool" where
  "has_rows cs io_size \<longleftrightarrow> Num (of_int io_size) \<in> set cs"

text \<open>The rows of a table whose cell in the given column is the number \<open>v\<close>.\<close>

definition rows_with :: "dataframe \<Rightarrow> string \<Rightarrow> real \<Rightarrow> cell list list" where
  "rows_with df col v =
     (case column_index col (columns df) of
        None \<Rightarrow> []
      | Some i \<Rightarrow> filter (\<lambda>r. cell_at i r = Num v) (rows df))"

text \<open>The series of one I/O size: aggregated from exactly the rows of that size.\<close>

definition selected_series :: "dataframe \<Rightarrow> int \<Rightarrow> error + errorbar" where
  "selected_series df io_size =
     and_then (select_eq df ''io_size'' io_size) (\<lambda>data. stride_series data io_size)"

definition stride_labels :: "dataframe \<Rightarrow> error + string list" where
  "stride_labels df = and_then (stride_bars df io_sizes []) (\<lambda>bs. Inr (map label bs))"

text \<open>
  Following the specification's words: the label of a series, the I/O size in KB with one
  decimal place.
\<close>

definition series_label_one_decimal :: "int \<Rightarrow> string" where
  "series_label_one_decimal io_size =
     ''IO Size='' @ format_f 1 (of_int io_size / 1024) @ ''KB''"

text \<open>A stride Measurement Table has the four columns the stride renderer reads.\<close>

definition stride_table :: "dataframe \<Rightarrow> bool" where
  "stride_table df \<longleftrightarrow>
     ''io_size'' \<in> set (columns df) \<and> ''stride_size'' \<in> set (columns df)
     \<and> ''mean'' \<in> set (columns df) \<and> ''ci95'' \<in> set (columns df)"

text \<open>
  A stride table with rows for the I/O sizes 4096 and 65536 and for 8192, which is not
  one of the representative sizes.
\<close>

definition stride_example :: dataframe where
  "stride_example =
     \<lparr>columns = [''io_size'', ''stride_size'', ''mean'', ''ci95''],
      rows = [[Num 4096, Num 1024, Num 90, Num 4],
              [Num 4096, Num 512, Num 100, Num 5],
              [Num 65536, Num 512, Num 200, Num 10],
              [Num 8192, Num 512, Num 150, Num 8]]\<rparr>"

text \<open>A stride table with a negative confidence half-width for the I/O size 4096.\<close>

definition negative_ci_table :: dataframe where
  "negative_ci_table =
     \<lparr>columns = [''io_size'', ''stride_size'', ''mean'', ''ci95''],
      rows = [[Num 4096, Num 512, Num 100, Num (- 5)]]\<rparr>"

text \<open>A stride table in which none of the representative I/O sizes occurs.\<close>

definition stride_other_sizes :: dataframe where
  "stride_other_sizes =
     \<lparr>columns = [''io_size'', ''stride_size'', ''mean'', ''ci95''],
      rows = [[Num 8192, Num 512, Num 150, Num 8], [Num 8192, Num 1024, Num 140, Num 7]]\<rparr>"

text \<open>The chart the stride renderer draws for \<open>stride_example\<close>, read, HDD.\<close>

definition stride_example_chart :: chart where
  "stride_example_chart =
     \<lparr>figsize = (12, 6),
      bars = [\<lparr>x_data = [512, 1024], y_data = [Num 100, Num 90], yerr = [Num 5, Num 4],
               fmt = [], label = ''IO Size=4KB''\<rparr>,
              \<lparr>x_data = [512], y_data = [Num 200], yerr = [Num 10],
               fmt = [], label = ''IO Size=64KB''\<rparr>],
      xscale = ''log'', yscale = ''log'', xlabel = ''Stride Size (bytes)'',
      ylabel = ''Throughput (MB/s)'', title = ''Stride Size vs Throughput - HDD read'',
      grid = True, legend = True\<rparr>"

subsection \<open>Notions for the file system\<close>

text \<open>The directories on the way to a path: its non-empty prefixes.\<close>

definition dir_paths :: "string \<Rightarrow> path set" where
  "dir_paths name = {q. \<exists>n. 0 < n \<and> n \<le> length (split_path name) \<and> q = take n (split_path name)}"

text \<open>The name denotes an existing directory: every component on the way is a directory.\<close>

definition dir_exists :: "filesystem \<Rightarrow> string \<Rightarrow> bool" where
  "dir_exists fs name \<longleftrightarrow>
     name \<noteq> [] \<and> list_all (\<lambda>n. node_at fs (take n (split_path name)) = Some Dir)
                   [0..<Suc (length (split_path name))]"

text \<open>
  A computation changes the file system only at the paths in \<open>S\<close>, and never removes or
  replaces a directory.
\<close>

definition changes_only :: "'a run \<Rightarrow> path set \<Rightarrow> bool" where
  "changes_only m S \<longleftrightarrow>
     (\<forall>fs r fs'. m fs = (r, fs') \<longrightarrow>
        (\<forall>q. q \<notin> S \<longrightarrow> fs' q = fs q) \<and> (\<forall>q. fs q = Some Dir \<longrightarrow> fs' q = Some Dir))"

text \<open>The four chart files of a device, and the six input files it is read from.\<close>

definition chart_paths :: "string \<Rightarrow> string \<Rightarrow> path list" where
  "chart_paths output_dir device =
     [split_path (output_dir @ ''/io_size_'' @ device @ ''_read.png''),
      split_path (output_dir @ ''/io_size_'' @ device @ ''_write.png''),
      split_path (output_dir @ ''/stride_'' @ device @ ''_read.png''),
      split_path (output_dir @ ''/stride_'' @ device @ ''_write.png'')]"

definition input_files :: "string list" where
  "input_files =
     [''sequential_size_read.csv'', ''sequential_size_write.csv'', ''random_read.csv'',
      ''random_write.csv'', ''stride_read.csv'', ''stride_write.csv'']"

subsection \<open>Example file systems\<close>

text \<open>The input directory of a device, with the given tables as its six files.\<close>

definition device_inputs :: "string \<Rightarrow> dataframe \<Rightarrow> dataframe \<Rightarrow> (path \<times> node) list" where
  "device_inputs device_dir io stride =
     [([device_dir], Dir),
      ([device_dir, ''sequential_size_read.csv''], File (Csv io)),
      ([device_dir, ''sequential_size_write.csv''], File (Csv io)),
      ([device_dir, ''random_read.csv''], File (Csv io)),
      ([device_dir, ''random_write.csv''], File (Csv io)),
      ([device_dir, ''stride_read.csv''], File (Csv stride)),
      ([device_dir, ''stride_write.csv''], File (Csv stride))]"

text \<open>Both devices with all their input files, and no output directory yet.\<close>

definition complete_inputs :: filesystem where
  "complete_inputs =
     map_of (device_inputs ''hdd_benchmark_results'' example_table stride_example
             @ device_inputs ''ssd_benchmark_results'' descending_table stride_other_sizes)"

text \<open>The same without the HDD's \<^verbatim>\<open>stride_read.csv\<close>.\<close>

definition hdd_incomplete :: filesystem where
  "hdd_incomplete = complete_inputs([''hdd_benchmark_results'', ''stride_read.csv''] := None)"


text \<open>A file system with nothing but the output directory.\<close>

definition plots_dir :: filesystem where
  "plots_dir = [[''benchmark_plots''] \<mapsto> Dir]"

text \<open>The stride chart without any series, for read on the HDD.\<close>

definition empty_stride_chart :: chart where
  "empty_stride_chart =
     \<lparr>figsize = (12, 6), bars = [], xscale = ''log'', yscale = ''log'',
      xlabel = ''Stride Size (bytes)'', ylabel = ''Throughput (MB/s)'',
      title = ''Stride Size vs Throughput - HDD read'', grid = True, legend = True\<rparr>"

subsection \<open>Notions for a complete run\<close>

text \<open>An I/O-size Measurement Table has the three columns the I/O-size renderer reads.\<close>

definition io_table :: "dataframe \<Rightarrow> bool" where
  "io_table df \<longleftrightarrow>
     ''io_size'' \<in> set (columns df) \<and> ''mean'' \<in> set (columns df) \<and> ''ci95'' \<in> set (columns df)"

text \<open>No entry of the table's \<open>ci95\<close> column is negative.\<close>

definition no_negative_ci95 :: "dataframe \<Rightarrow> bool" where
  "no_negative_ci95 df =
     (case get_column df ''ci95'' of Inl e \<Rightarrow> False | Inr cs \<Rightarrow> \<not> list_ex negative_cell cs)"

text \<open>
  Measurements that a log-log error-bar chart of throughput against the key column can
  show: the table has rows, and in every row the key is a positive number and the
  throughput interval lies above zero (\<open>0 \<le> ci95 < mean\<close>).
\<close>

definition positive_cell :: "cell \<Rightarrow> bool" where
  "positive_cell c = (case c of NA \<Rightarrow> False | Num v \<Rightarrow> 0 < v)"

definition interval_above_zero :: "cell \<Rightarrow> cell \<Rightarrow> bool" where
  "interval_above_zero m c =
     (case m of NA \<Rightarrow> False
      | Num a \<Rightarrow> (case c of NA \<Rightarrow> False | Num b \<Rightarrow> 0 \<le> b \<and> b < a))"

definition measurements :: "dataframe \<Rightarrow> string \<Rightarrow> bool" where
  "measurements df key =
     (rows df \<noteq> [] \<and>
      (case get_column df key of Inl e \<Rightarrow> False | Inr ks \<Rightarrow>
      (case get_column df ''mean'' of Inl e \<Rightarrow> False | Inr ms \<Rightarrow>
      (case get_column df ''ci95'' of Inl e \<Rightarrow> False | Inr cs \<Rightarrow>
         list_all positive_cell ks \<and> list_all2 interval_above_zero ms cs))))"

definition valid_io_table :: "dataframe \<Rightarrow> bool" where
  "valid_io_table df \<longleftrightarrow> measurements df ''io_size''"

definition valid_stride_table :: "dataframe \<Rightarrow> bool" where
  "valid_stride_table df \<longleftrightarrow> ''io_size'' \<in> set (columns df) \<and> measurements df ''stride_size''"

text \<open>The path holds a CSV file whose table is of the given kind.\<close>

definition csv_at :: "filesystem \<Rightarrow> path \<Rightarrow> (dataframe \<Rightarrow> bool) \<Rightarrow> bool" where
  "csv_at fs p kind = (case fs p of Some (File (Csv df)) \<Rightarrow> kind df | _ \<Rightarrow> False)"

text \<open>The device directory holds the six input files, each a valid table of its kind.\<close>

definition valid_inputs :: "filesystem \<Rightarrow> string \<Rightarrow> bool" where
  "valid_inputs fs device_dir \<longleftrightarrow>
     csv_at fs (split_path (device_dir @ ''/sequential_size_read.csv'')) valid_io_table
     \<and> csv_at fs (split_path (device_dir @ ''/sequential_size_write.csv'')) valid_io_table
     \<and> csv_at fs (split_path (device_dir @ ''/random_read.csv'')) valid_io_table
     \<and> csv_at fs (split_path (device_dir @ ''/random_write.csv'')) valid_io_table
     \<and> csv_at fs (split_path (device_dir @ ''/stride_read.csv'')) valid_stride_table
     \<and> csv_at fs (split_path (device_dir @ ''/stride_write.csv'')) valid_stride_table"

text \<open>The eight chart files of a run, by name.\<close>

definition hdd_chart_paths :: "path list" where
  "hdd_chart_paths =
     [[''benchmark_plots'', ''io_size_HDD_read.png''],
      [''benchmark_plots'', ''io_size_HDD_write.png''],
      [''benchmark_plots'', ''stride_HDD_read.png''],
      [''benchmark_plots'', ''stride_HDD_write.png'']]"

definition ssd_chart_paths :: "path list" where
  "ssd_chart_paths =
     [[''benchmark_plots'', ''io_size_SSD_read.png''],
      [''benchmark_plots'', ''io_size_SSD_write.png''],
      [''benchmark_plots'', ''stride_SSD_read.png''],
      [''benchmark_plots'', ''stride_SSD_write.png'']]"

definition main_chart_paths :: "path list" where
  "main_chart_paths = hdd_chart_paths @ ssd_chart_paths"

text \<open>The path holds a chart file.\<close>

definition png_at :: "filesystem \<Rightarrow> path \<Rightarrow> bool" where
  "png_at fs p = (case fs p of Some (File (Png c)) \<Rightarrow> True | _ \<Rightarrow> False)"

section \<open>Facts about the aggregator\<close>

lemma and_then_Inr_iff:
  "and_then r f = Inr y \<longleftrightarrow> (\<exists>x. r = Inr x \<and> f x = Inr y)"
  by (cases r) (simp_all add: and_then_def)

lemma and_then_Inr [simp]: "and_then (Inr x) f = f x"
  by (simp add: and_then_def)

lemma and_then_Inl [simp]: "and_then (Inl e) f = Inl e"
  by (simp add: and_then_def)

lemma length_get_column: "get_column df name = Inr cs \<Longrightarrow> length cs = length (rows df)"
  by (auto simp: get_column_def split: option.splits)

lemma set_present_keys: "set (present_keys ks) = {k. Num k \<in> set ks}"
  by (induction ks rule: present_keys.induct) auto

lemma set_group_keys: "set (group_keys ks) = {k. Num k \<in> set ks}"
  by (simp add: group_keys_def set_present_keys)

lemma strict_sorted_group_keys: "sorted_wrt (<) (group_keys ks)"
  by (simp add: group_keys_def strict_sorted_iff)

lemma index_group_last: "index (group_last ks vs) = group_keys ks"
  by (simp add: index_def group_last_def comp_def)

lemma map_of_group_last:
  "map_of (group_last ks vs) k =
     (if Num k \<in> set ks then Some (last_valid (group_cells k ks vs)) else None)"
proof -
  have "map_of (map (\<lambda>k. (k, f k)) xs) k = (if k \<in> set xs then Some (f k) else None)"
    for f :: "real \<Rightarrow> cell" and xs
    by (induction xs) auto
  then show ?thesis
    by (simp add: group_last_def set_group_keys)
qed

lemma group_cells_all_NA:
  "length ks = length vs \<Longrightarrow>
   (\<forall>j < length ks. ks ! j = Num k \<longrightarrow> vs ! j = NA) \<Longrightarrow>
   last_valid (group_cells k ks vs) = NA"
proof (induction ks vs rule: list_induct2)
  case Nil
  then show ?case by simp
next
  case (Cons key ks v vs)
  have tl: "\<forall>j < length ks. ks ! j = Num k \<longrightarrow> vs ! j = NA"
    using Cons.prems by (metis Suc_less_eq length_Cons nth_Cons_Suc)
  have hd: "key = Num k \<longrightarrow> v = NA"
    using Cons.prems by (metis length_Cons nth_Cons_0 zero_less_Suc)
  show ?case using Cons.IH [OF tl] hd by simp
qed

lemma last_valid_group_cells:
  "length ks = length vs \<Longrightarrow> i < length ks \<Longrightarrow> ks ! i = Num k \<Longrightarrow> vs ! i \<noteq> NA \<Longrightarrow>
   (\<forall>j. i < j \<and> j < length ks \<and> ks ! j = Num k \<longrightarrow> vs ! j = NA) \<Longrightarrow>
   last_valid (group_cells k ks vs) = vs ! i"
proof (induction ks vs arbitrary: i rule: list_induct2)
  case Nil
  then show ?case by simp
next
  case (Cons key ks v vs)
  show ?case
  proof (cases i)
    case 0
    have "\<forall>j < length ks. ks ! j = Num k \<longrightarrow> vs ! j = NA"
    proof (intro allI impI)
      fix j assume "j < length ks" "ks ! j = Num k"
      then show "vs ! j = NA"
        using Cons.prems(4) [rule_format, of "Suc j"] 0 by simp
    qed
    then have "last_valid (group_cells k ks vs) = NA"
      using Cons.hyps group_cells_all_NA by blast
    then show ?thesis using 0 Cons.prems by simp
  next
    case (Suc i')
    have later: "\<forall>j. i' < j \<and> j < length ks \<and> ks ! j = Num k \<longrightarrow> vs ! j = NA"
    proof (intro allI impI)
      fix j assume "i' < j \<and> j < length ks \<and> ks ! j = Num k"
      then show "vs ! j = NA"
        using Cons.prems(4) [rule_format, of "Suc j"] Suc by simp
    qed
    have "last_valid (group_cells k ks vs) = vs ! i'"
      using Cons.IH [of i'] Cons.prems Suc later by simp
    moreover have "vs ! i' \<noteq> NA" using Cons.prems Suc by simp
    ultimately show ?thesis using Suc by (cases "vs ! i'") auto
  qed
qed

lemmas table_simps =
  groupby_last_def get_column_def cell_at_def group_last_def group_keys_def
  aggregated_value_def aggregated_keys_def last_row_value_def index_def
  first_appearance_keys_def first_appearance_order_def

text \<open>
  C1 (as amended). For each column, the aggregated value of a key is the value in the
  last row with that key in which the column is present: later rows of the key with a
  missing value are passed over. So it is the last row's value whenever that is present.
\<close>

theorem aggregator_last_present:
  assumes "get_column df key = Inr ks" and "get_column df col = Inr vs"
    and "i < length (rows df)" and "ks ! i = Num k" and "vs ! i \<noteq> NA"
    and "\<forall>j. i < j \<and> j < length (rows df) \<and> ks ! j = Num k \<longrightarrow> vs ! j = NA"
  shows "aggregated_value df key k col = Inr (vs ! i)"
proof -
  have len: "length ks = length vs" "length ks = length (rows df)"
    using assms(1,2) by (simp_all add: length_get_column)
  have "Num k \<in> set ks"
    using assms(3,4) len by (metis nth_mem)
  moreover have "last_valid (group_cells k ks vs) = vs ! i"
    using last_valid_group_cells [of ks vs i k] assms(3-6) len by simp
  ultimately show ?thesis
    using assms(1,2) by (simp add: aggregated_value_def groupby_last_def map_of_group_last)
qed

theorem aggregator_last_present_witness:
  "aggregated_value example_table ''io_size'' 4096 ''mean'' = Inr (Num 20)
   \<and> aggregated_value repeated_table ''io_size'' 4096 ''mean'' = Inr (Num 10)"
proof -
  have a: "get_column example_table ''io_size'' = Inr [Num 4096, Num 4096]"
    and b: "get_column example_table ''mean'' = Inr [Num 10, Num 20]"
    and c: "get_column repeated_table ''io_size'' = Inr [Num 4096, Num 4096]"
    and d: "get_column repeated_table ''mean'' = Inr [Num 10, NA]"
    by (simp_all add: example_table_def repeated_table_def get_column_def cell_at_def)
  have e: "\<forall>j. 1 < j \<and> j < length (rows example_table) \<and> [Num 4096, Num 4096] ! j = Num 4096
             \<longrightarrow> [Num 10, Num 20] ! j = NA"
    by (simp add: example_table_def)
  have f: "\<forall>j. 0 < j \<and> j < length (rows repeated_table) \<and> [Num 4096, Num 4096] ! j = Num 4096
             \<longrightarrow> [Num 10, NA] ! j = NA"
    by (auto simp: repeated_table_def less_Suc_eq)
  have "aggregated_value example_table ''io_size'' 4096 ''mean'' = Inr ([Num 10, Num 20] ! 1)"
    by (rule aggregator_last_present [OF a b _ _ _ e]) (simp_all add: example_table_def)
  moreover
  have "aggregated_value repeated_table ''io_size'' 4096 ''mean'' = Inr ([Num 10, NA] ! 0)"
    by (rule aggregator_last_present [OF c d _ _ _ f]) (simp_all add: repeated_table_def)
  ultimately show ?thesis by simp
qed

theorem aggregator_last_row_counterexample:
  "aggregated_value repeated_table ''io_size'' 4096 ''mean''
     \<noteq> last_row_value repeated_table ''io_size'' 4096 ''mean''"
  by (simp add: repeated_table_def table_simps)

lemma set_first_occurrences: "set (first_occurrences ks) = set ks"
  by (induction ks) auto

lemma distinct_first_occurrences: "distinct (first_occurrences ks)"
  by (induction ks) (auto simp: set_first_occurrences)

lemma group_keys_first_appearance: "group_keys ks = sort (first_appearance_order ks)"
proof -
  have "sort (remdups (present_keys ks)) = sort (first_occurrences (present_keys ks))"
    by (rule sorted_distinct_set_unique)
       (simp_all add: set_first_occurrences distinct_first_occurrences)
  then show ?thesis
    by (simp add: group_keys_def first_appearance_order_def)
qed

lemma sort_eq_self_iff: "sort ks = ks \<longleftrightarrow> sorted ks" for ks :: "real list"
  by (metis sorted_sort sorted_sort_id)

text \<open>
  C2 (as amended). The group keys of the aggregated output are the keys in order of first
  appearance, sorted ascending; they are in first-appearance order exactly when that
  order is ascending already.
\<close>

theorem aggregated_keys_sorted_first_appearance:
  assumes "get_column df key = Inr ks" and "get_column df col = Inr vs"
  shows "aggregated_keys df key col = Inr (sort (first_appearance_order ks))
         \<and> (aggregated_keys df key col = first_appearance_keys df key
              \<longleftrightarrow> sorted (first_appearance_order ks))"
  using assms
  by (simp add: aggregated_keys_def first_appearance_keys_def groupby_last_def
        index_group_last group_keys_first_appearance sort_eq_self_iff)

theorem aggregated_keys_sorted_first_appearance_witness:
  "aggregated_keys descending_table ''io_size'' ''mean'' = Inr [4096, 65536]
   \<and> first_appearance_keys descending_table ''io_size'' = Inr [65536, 4096]
   \<and> aggregated_keys example_table ''io_size'' ''mean'' = first_appearance_keys example_table ''io_size''"
proof -
  have a: "get_column descending_table ''io_size'' = Inr [Num 65536, Num 4096, Num 65536]"
    and b: "get_column descending_table ''mean'' = Inr [Num 5, Num 10, Num 7]"
    and c: "get_column example_table ''io_size'' = Inr [Num 4096, Num 4096]"
    and d: "get_column example_table ''mean'' = Inr [Num 10, Num 20]"
    by (simp_all add: descending_table_def example_table_def get_column_def cell_at_def)
  show ?thesis
    using aggregated_keys_sorted_first_appearance [OF a b]
      aggregated_keys_sorted_first_appearance [OF c d] a c
    by (simp add: first_appearance_order_def first_appearance_keys_def)
qed

theorem aggregated_keys_first_appearance_counterexample:
  "aggregated_keys descending_table ''io_size'' ''mean''
     \<noteq> first_appearance_keys descending_table ''io_size''"
  by (simp add: descending_table_def table_simps)

text \<open>
  C9. Whenever the aggregator returns, the group keys of its output are in strictly
  ascending order, whatever the order of the rows.
\<close>

theorem aggregated_keys_strictly_ascending:
  assumes "aggregated_keys df key col = Inr out"
  shows "sorted_wrt (<) out"
  using assms
  by (auto simp: aggregated_keys_def groupby_last_def and_then_Inr_iff index_group_last
        strict_sorted_group_keys)

theorem aggregated_keys_strictly_ascending_witness:
  "aggregated_keys descending_table ''io_size'' ''mean'' = Inr [4096, 65536]
   \<and> sorted_wrt (<) [4096, 65536 :: real]"
proof -
  have a: "aggregated_keys descending_table ''io_size'' ''mean'' = Inr [4096, 65536]"
    by (simp add: descending_table_def table_simps)
  show ?thesis
    using aggregated_keys_strictly_ascending [OF a] a by simp
qed

section \<open>Facts about the stride renderer\<close>

lemma column_index_None_iff: "column_index name cs = None \<longleftrightarrow> name \<notin> set cs"
  by (induction cs) auto

lemma get_column_present:
  "name \<in> set (columns df) \<Longrightarrow> \<exists>cs. get_column df name = Inr cs"
  by (cases "column_index name (columns df)")
     (simp_all add: get_column_def column_index_None_iff)

lemma get_column_Inr_columns:
  "get_column df name = Inr cs \<Longrightarrow> name \<in> set (columns df)"
  using column_index_None_iff [of name "columns df"]
  by (cases "column_index name (columns df)") (auto simp: get_column_def)

lemma groupby_last_present:
  "key \<in> set (columns df) \<Longrightarrow> col \<in> set (columns df) \<Longrightarrow>
   \<exists>s. groupby_last df key col = Inr s"
  using get_column_present [of key df] get_column_present [of col df]
  by (auto simp: groupby_last_def)

lemma mask_filter: "map fst (filter snd (zip rs (map f rs))) = filter f rs"
  by (induction rs) auto

lemma select_eq_rows_with:
  assumes "get_column df col = Inr cs"
  shows "select_eq df col n = Inr (df\<lparr>rows := rows_with df col (of_int n)\<rparr>)"
proof -
  obtain i where i: "column_index col (columns df) = Some i"
    and cs: "cs = map (cell_at i) (rows df)"
    using assms by (auto simp: get_column_def split: option.splits)
  have "map fst (filter snd (zip (rows df) (map (\<lambda>c. c = Num (of_int n)) cs)))
          = filter (\<lambda>r. cell_at i r = Num (of_int n)) (rows df)"
    using mask_filter [of "rows df" "\<lambda>r. cell_at i r = Num (of_int n)"]
    by (simp add: cs comp_def)
  then show ?thesis
    using assms i by (simp add: select_eq_def rows_with_def)
qed

lemma rows_with_empty_iff:
  assumes "get_column df col = Inr cs"
  shows "rows_with df col v = [] \<longleftrightarrow> Num v \<notin> set cs"
proof -
  obtain i where i: "column_index col (columns df) = Some i"
    and cs: "cs = map (cell_at i) (rows df)"
    using assms by (auto simp: get_column_def split: option.splits)
  show ?thesis
    by (auto simp: rows_with_def i cs filter_empty_conv image_iff)
qed

lemma select_eq_empty_iff:
  assumes "get_column df ''io_size'' = Inr cs" and "select_eq df ''io_size'' n = Inr data"
  shows "empty data \<longleftrightarrow> \<not> has_rows cs n"
proof -
  have "columns df \<noteq> []"
    using get_column_Inr_columns [OF assms(1)] by auto
  moreover have "data = df\<lparr>rows := rows_with df ''io_size'' (of_int n)\<rparr>"
    using select_eq_rows_with [OF assms(1), of n] assms(2) by simp
  ultimately show ?thesis
    using rows_with_empty_iff [OF assms(1), of "of_int n"]
    by (simp add: empty_def has_rows_def)
qed

lemma stride_bars_selected:
  assumes "get_column df ''io_size'' = Inr cs"
  shows "stride_bars df sizes acc = Inr bs \<Longrightarrow>
         map Inr bs = map Inr acc @ map (selected_series df) (filter (has_rows cs) sizes)"
proof (induction sizes arbitrary: acc)
  case Nil
  then show ?case by simp
next
  case (Cons n sizes)
  obtain data where data: "select_eq df ''io_size'' n = Inr data"
    using select_eq_rows_with [OF assms] by blast
  show ?case
  proof (cases "has_rows cs n")
    case True
    then have ne: "\<not> empty data"
      using select_eq_empty_iff [OF assms data] by simp
    then obtain b where b: "stride_series data n = Inr b"
      and rest: "stride_bars df sizes (acc @ [b]) = Inr bs"
      using Cons.prems data by (auto simp: and_then_Inr_iff)
    have "selected_series df n = Inr b"
      using data b by (simp add: selected_series_def)
    then show ?thesis
      using Cons.IH [OF rest] True by simp
  next
    case False
    then have "empty data"
      using select_eq_empty_iff [OF assms data] by simp
    then have "stride_bars df sizes acc = Inr bs"
      using Cons.prems data by simp
    then show ?thesis
      using Cons.IH False by simp
  qed
qed

lemma not_negative_NA [simp]: "\<not> negative_cell NA"
  by (simp add: negative_cell_def)

lemma last_valid_in: "last_valid vs = NA \<or> last_valid vs \<in> set vs"
  by (induction vs) (auto split: cell.splits)

lemma set_group_cells: "set (group_cells k ks vs) \<subseteq> set vs"
  by (induction k ks vs rule: group_cells.induct) auto

lemma values_of_group_last: "set (values_of (group_last ks vs)) \<subseteq> insert NA (set vs)"
  using last_valid_in set_group_cells
  by (fastforce simp: values_of_def group_last_def)

lemma groupby_last_no_negative:
  assumes "get_column df col = Inr vs" and "\<not> list_ex negative_cell vs"
    and "groupby_last df key col = Inr s"
  shows "\<not> list_ex negative_cell (values_of s)"
proof -
  obtain ks where "s = group_last ks vs"
    using assms(1,3) by (auto simp: groupby_last_def and_then_Inr_iff)
  then have "set (values_of s) \<subseteq> insert NA (set vs)"
    by (simp add: values_of_group_last)
  then show ?thesis
    using assms(2) by (auto simp: list_ex_iff)
qed

lemma plt_errorbar_accepts:
  "\<not> list_ex negative_cell err \<Longrightarrow>
   plt_errorbar x y err f l = Inr \<lparr>x_data = x, y_data = y, yerr = err, fmt = f, label = l\<rparr>"
  by (simp add: plt_errorbar_def)

lemma plt_errorbar_label: "plt_errorbar x y err f l = Inr b \<Longrightarrow> label b = l"
  by (auto simp: plt_errorbar_def split: if_splits)

lemma no_negative_ci95D:
  "no_negative_ci95 df \<Longrightarrow> \<exists>cs. get_column df ''ci95'' = Inr cs \<and> \<not> list_ex negative_cell cs"
  by (cases "get_column df ''ci95''") (simp_all add: no_negative_ci95_def)

lemma set_rows_with: "set (rows_with df col v) \<subseteq> set (rows df)"
  by (auto simp: rows_with_def split: option.splits)

lemma no_negative_ci95_rows:
  assumes "no_negative_ci95 df" and "set rs \<subseteq> set (rows df)"
  shows "no_negative_ci95 (df\<lparr>rows := rs\<rparr>)"
proof -
  obtain i where i: "column_index ''ci95'' (columns df) = Some i"
    and ok: "\<not> list_ex negative_cell (map (cell_at i) (rows df))"
    using no_negative_ci95D [OF assms(1)] by (auto simp: get_column_def split: option.splits)
  have "\<not> list_ex negative_cell (map (cell_at i) rs)"
    using ok assms(2) by (auto simp: list_ex_iff)
  then show ?thesis
    using i by (simp add: no_negative_ci95_def get_column_def)
qed

lemma stride_series_present:
  assumes "''stride_size'' \<in> set (columns data)" and "''mean'' \<in> set (columns data)"
    and "no_negative_ci95 data"
  shows "\<exists>b. stride_series data n = Inr b"
proof -
  obtain cs where cs: "get_column data ''ci95'' = Inr cs" and ok: "\<not> list_ex negative_cell cs"
    using no_negative_ci95D [OF assms(3)] by blast
  have ci: "''ci95'' \<in> set (columns data)"
    using cs by (rule get_column_Inr_columns)
  obtain means where means: "groupby_last data ''stride_size'' ''mean'' = Inr means"
    using groupby_last_present [OF assms(1,2)] by blast
  obtain ci95 where ci95: "groupby_last data ''stride_size'' ''ci95'' = Inr ci95"
    using groupby_last_present [OF assms(1) ci] by blast
  have "\<not> list_ex negative_cell (values_of ci95)"
    using groupby_last_no_negative [OF cs ok ci95] .
  then show ?thesis
    by (simp add: stride_series_def means ci95 plt_errorbar_accepts)
qed

lemma stride_bars_total:
  assumes "stride_table df" and "no_negative_ci95 df"
  shows "\<exists>bs. stride_bars df sizes acc = Inr bs"
proof (induction sizes arbitrary: acc)
  case Nil
  then show ?case by simp
next
  case (Cons n sizes)
  obtain cs where cs: "get_column df ''io_size'' = Inr cs"
    using assms(1) get_column_present by (auto simp: stride_table_def)
  have sel: "select_eq df ''io_size'' n = Inr (df\<lparr>rows := rows_with df ''io_size'' (of_int n)\<rparr>)"
    by (rule select_eq_rows_with [OF cs])
  have "no_negative_ci95 (df\<lparr>rows := rows_with df ''io_size'' (of_int n)\<rparr>)"
    using no_negative_ci95_rows [OF assms(2) set_rows_with] .
  then obtain b where b: "stride_series (df\<lparr>rows := rows_with df ''io_size'' (of_int n)\<rparr>) n = Inr b"
    using stride_series_present [of "df\<lparr>rows := rows_with df ''io_size'' (of_int n)\<rparr>" n] assms(1)
    by (auto simp: stride_table_def)
  show ?case
    using Cons.IH [of acc] Cons.IH [of "acc @ [b]"] by (auto simp: sel b)
qed

lemma stride_bars_skip:
  assumes "get_column df ''io_size'' = Inr cs" and "\<not> has_rows cs n"
  shows "stride_bars df (n # rest) acc = stride_bars df rest acc"
proof -
  have sel: "select_eq df ''io_size'' n = Inr (df\<lparr>rows := rows_with df ''io_size'' (of_int n)\<rparr>)"
    by (rule select_eq_rows_with [OF assms(1)])
  then have "empty (df\<lparr>rows := rows_with df ''io_size'' (of_int n)\<rparr>)"
    using select_eq_empty_iff [OF assms(1) sel] assms(2) by simp
  then show ?thesis
    by (simp add: sel)
qed

lemma stride_bars_none:
  assumes "get_column df ''io_size'' = Inr cs" and "\<forall>n \<in> set sizes. \<not> has_rows cs n"
  shows "stride_bars df sizes acc = Inr acc"
  using assms(2)
proof (induction sizes)
  case Nil
  then show ?case by simp
next
  case (Cons n sizes)
  have "stride_bars df (n # sizes) acc = stride_bars df sizes acc"
    by (rule stride_bars_skip [OF assms(1)]) (use Cons.prems in simp)
  then show ?case
    using Cons by (simp del: stride_bars.simps)
qed

lemma stride_series_label: "stride_series data n = Inr b \<Longrightarrow> label b = series_label n"
  by (auto simp: stride_series_def and_then_Inr_iff plt_errorbar_label)

lemma selected_series_label: "selected_series df n = Inr b \<Longrightarrow> label b = series_label n"
  by (auto simp: selected_series_def and_then_Inr_iff stride_series_label)

lemma map_Inr_selected_labels:
  "map Inr bs = map (selected_series df) sizes \<Longrightarrow> map label bs = map series_label sizes"
proof (induction sizes arbitrary: bs)
  case Nil
  then show ?case by simp
next
  case (Cons n sizes)
  then obtain b bs' where bs: "bs = b # bs'" by (cases bs) auto
  then show ?case
    using Cons selected_series_label [of df n b] by auto
qed

lemma series_label_fixed:
  "map series_label io_sizes =
     [''IO Size=4KB'', ''IO Size=64KB'', ''IO Size=512KB'', ''IO Size=1024KB'',
      ''IO Size=10240KB'']"
  by (simp add: series_label_def io_sizes_def format_f_def round_half_even_def)

text \<open>
  C3 (as amended). In the stride chart, each of the five fixed I/O sizes that has at least
  one matching row contributes a series labelled by that size converted to KB and
  formatted with no decimal place: the labels are, in this order and for the sizes
  present, IO Size=4KB, 64KB, 512KB, 1024KB and 10240KB.
\<close>

theorem stride_series_labels:
  assumes "stride_chart df operation device = Inr c"
    and "get_column df ''io_size'' = Inr cs"
  shows "map label (bars c) =
           map (\<lambda>n. ''IO Size='' @ format_f 0 (of_int n / 1024) @ ''KB'')
             (filter (has_rows cs) io_sizes)
         \<and> set (map label (bars c)) \<subseteq>
             {''IO Size=4KB'', ''IO Size=64KB'', ''IO Size=512KB'', ''IO Size=1024KB'',
              ''IO Size=10240KB''}"
proof -
  obtain bs where bs: "stride_bars df io_sizes [] = Inr bs" and c: "bars c = bs"
    using assms(1) by (auto simp: stride_chart_def and_then_Inr_iff)
  have "map Inr bs = map (selected_series df) (filter (has_rows cs) io_sizes)"
    using stride_bars_selected [OF assms(2) bs] by simp
  then have labels: "map label bs = map series_label (filter (has_rows cs) io_sizes)"
    by (rule map_Inr_selected_labels)
  have "set (map series_label (filter (has_rows cs) io_sizes)) \<subseteq> set (map series_label io_sizes)"
    by auto
  then have "set (map label bs) \<subseteq>
      {''IO Size=4KB'', ''IO Size=64KB'', ''IO Size=512KB'', ''IO Size=1024KB'',
       ''IO Size=10240KB''}"
    unfolding labels series_label_fixed by simp
  moreover have "map series_label (filter (has_rows cs) io_sizes)
      = map (\<lambda>n. ''IO Size='' @ format_f 0 (of_int n / 1024) @ ''KB'')
          (filter (has_rows cs) io_sizes)"
    by (simp add: series_label_def)
  ultimately show ?thesis
    using labels c by simp
qed

lemmas stride_eval =
  stride_chart_def stride_labels_def io_sizes_def select_eq_def get_column_def cell_at_def
  empty_def stride_series_def groupby_last_def group_last_def group_keys_def index_def
  values_of_def series_label_def format_f_def round_half_even_def plt_errorbar_def
  negative_cell_def

lemma stride_chart_example:
  "stride_chart stride_example ''read'' ''HDD'' = Inr stride_example_chart"
  by (simp add: stride_example_def stride_example_chart_def stride_eval)

lemma stride_example_io_size:
  "get_column stride_example ''io_size'' = Inr [Num 4096, Num 4096, Num 65536, Num 8192]"
  by (simp add: stride_example_def get_column_def cell_at_def)

theorem stride_series_labels_witness:
  "stride_chart stride_example ''read'' ''HDD'' = Inr stride_example_chart
   \<and> map label (bars stride_example_chart) = [''IO Size=4KB'', ''IO Size=64KB'']"
  using stride_series_labels [OF stride_chart_example stride_example_io_size]
    stride_chart_example
  by (simp add: io_sizes_def has_rows_def format_f_def round_half_even_def)

theorem stride_label_one_decimal_counterexample:
  "stride_labels stride_example
     \<noteq> Inr [series_label_one_decimal 4096, series_label_one_decimal 65536]"
  by (simp add: stride_example_def stride_eval series_label_one_decimal_def)

text \<open>
  C4. For every stride Measurement Table the stride renderer goes through the five fixed
  I/O sizes 4096, 65536, 524288, 1048576 and 10485760 and selects for each exactly the
  rows whose \<open>io_size\<close> equals it. A size without rows is skipped: it adds no series
  and raises no error. So whenever the chart is built (and it is built for every table
  without a negative \<open>ci95\<close>), its series are, in this order, those of the sizes that
  have at least one row, and their number is the number of the five sizes present.
\<close>

theorem stride_series_of_present_sizes:
  assumes "stride_table df" and "get_column df ''io_size'' = Inr cs"
  shows "(no_negative_ci95 df \<longrightarrow> (\<exists>c. stride_chart df operation device = Inr c))
         \<and> (\<forall>c. stride_chart df operation device = Inr c \<longrightarrow>
               map Inr (bars c) =
                 map (selected_series df)
                   (filter (has_rows cs) [4096, 65536, 524288, 1048576, 10485760])
               \<and> length (bars c) =
                   length (filter (has_rows cs) [4096, 65536, 524288, 1048576, 10485760]))
         \<and> (\<forall>n rest acc. \<not> has_rows cs n \<longrightarrow>
               stride_bars df (n # rest) acc = stride_bars df rest acc)
         \<and> (\<forall>n. select_eq df ''io_size'' n
                  = Inr (df\<lparr>rows := rows_with df ''io_size'' (of_int n)\<rparr>))"
proof -
  have built: "\<exists>c. stride_chart df operation device = Inr c" if "no_negative_ci95 df"
    using stride_bars_total [OF assms(1) that, of io_sizes "[]"]
    by (auto simp: stride_chart_def)
  have series: "map Inr (bars c) =
                  map (selected_series df)
                    (filter (has_rows cs) [4096, 65536, 524288, 1048576, 10485760])
                \<and> length (bars c) =
                    length (filter (has_rows cs) [4096, 65536, 524288, 1048576, 10485760])"
    if c: "stride_chart df operation device = Inr c" for c
  proof -
    obtain bs where bs: "stride_bars df io_sizes [] = Inr bs" and bars: "bars c = bs"
      using c by (auto simp: stride_chart_def and_then_Inr_iff)
    have sel: "map Inr bs = map (selected_series df) (filter (has_rows cs) io_sizes)"
      using stride_bars_selected [OF assms(2) bs] by simp
    have "length (map Inr bs :: (error + errorbar) list)
            = length (map (selected_series df) (filter (has_rows cs) io_sizes))"
      by (simp only: sel)
    then have "length bs = length (filter (has_rows cs) io_sizes)"
      by simp
    then show ?thesis
      using sel bars by (simp add: io_sizes_def)
  qed
  show ?thesis
    using built series stride_bars_skip [OF assms(2)] select_eq_rows_with [OF assms(2)]
    by blast
qed

theorem stride_series_of_present_sizes_witness:
  "stride_chart stride_example ''read'' ''HDD'' = Inr stride_example_chart
   \<and> length (bars stride_example_chart) = 2
   \<and> filter (has_rows [Num 4096, Num 4096, Num 65536, Num 8192])
        [4096, 65536, 524288, 1048576, 10485760] = [4096, 65536]
   \<and> no_negative_ci95 stride_example"
proof -
  have t: "stride_table stride_example"
    by (simp add: stride_table_def stride_example_def)
  have n: "no_negative_ci95 stride_example"
    by (simp add: no_negative_ci95_def stride_example_def get_column_def cell_at_def
          negative_cell_def)
  show ?thesis
    using stride_series_of_present_sizes [OF t stride_example_io_size, of "''read''" "''HDD''"]
      stride_chart_example n
    by (auto simp: has_rows_def)
qed

section \<open>Facts about paths and the file system\<close>

lemma components_slash:
  "components cur (a @ CHR ''/'' # b) = components cur a @ components [] b"
  by (induction a arbitrary: cur) auto

lemma components_nonempty: "cur \<noteq> [] \<Longrightarrow> components cur s \<noteq> []"
  by (induction s arbitrary: cur) auto

lemma split_path_below:
  assumes "c \<noteq> CHR ''/''"
  shows "\<exists>f fs. split_path (d @ CHR ''/'' # c # s) = split_path d @ f # fs"
proof -
  have "components [] (c # s) \<noteq> []"
    using assms components_nonempty [of "[c]" s] by simp
  then show ?thesis
    by (cases "components [] (c # s)") (auto simp: split_path_def components_slash)
qed

lemma below_not_dir_path:
  assumes "c \<noteq> CHR ''/''"
  shows "split_path (d @ CHR ''/'' # c # s) \<notin> dir_paths d"
proof -
  obtain f fs where "split_path (d @ CHR ''/'' # c # s) = split_path d @ f # fs"
    using split_path_below [OF assms] by blast
  then show ?thesis
    by (auto simp: dir_paths_def dest: arg_cong [where f = length])
qed

lemma seq_run_Inl: "m fs = (Inl e, fs') \<Longrightarrow> seq_run m f fs = (Inl e, fs')"
  by (simp add: seq_run_def)

lemma mkdir_chain_frame:
  "mkdir_chain name pre cs fs = Inr fs' \<Longrightarrow>
   fs' q = fs q \<or> (fs q = None \<and> fs' q = Some Dir
                    \<and> (\<exists>n. 0 < n \<and> n \<le> length cs \<and> q = pre @ take n cs))"
proof (induction cs arbitrary: pre fs)
  case Nil
  then show ?case by simp
next
  case (Cons c cs)
  show ?case
  proof (cases "fs (pre @ [c])")
    case None
    then have rec: "mkdir_chain name (pre @ [c]) cs (fs(pre @ [c] \<mapsto> Dir)) = Inr fs'"
      using Cons.prems by simp
    from Cons.IH [OF rec] show ?thesis
    proof
      assume same: "fs' q = (fs(pre @ [c] \<mapsto> Dir)) q"
      show ?thesis
      proof (cases "q = pre @ [c]")
        case True
        then have "fs q = None \<and> fs' q = Some Dir \<and> q = pre @ take 1 (c # cs)"
          using same None by simp
        then show ?thesis by (intro disjI2) (auto intro: exI [of _ 1])
      next
        case False
        then show ?thesis using same by simp
      qed
    next
      assume new: "(fs(pre @ [c] \<mapsto> Dir)) q = None \<and> fs' q = Some Dir
                   \<and> (\<exists>n. 0 < n \<and> n \<le> length cs \<and> q = (pre @ [c]) @ take n cs)"
      then obtain n where n: "0 < n" "n \<le> length cs" "q = (pre @ [c]) @ take n cs"
        by blast
      have "q = pre @ take (Suc n) (c # cs)" using n by simp
      moreover have "fs q = None" using new by (auto split: if_splits)
      ultimately show ?thesis
        using new n by (intro disjI2) (auto intro: exI [of _ "Suc n"])
    qed
  next
    case (Some nd)
    show ?thesis
    proof (cases nd)
      case Dir
      then have rec: "mkdir_chain name (pre @ [c]) cs fs = Inr fs'"
        using Cons.prems Some by simp
      from Cons.IH [OF rec] show ?thesis
      proof
        assume "fs' q = fs q" then show ?thesis by simp
      next
        assume new: "fs q = None \<and> fs' q = Some Dir
                     \<and> (\<exists>n. 0 < n \<and> n \<le> length cs \<and> q = (pre @ [c]) @ take n cs)"
        then obtain n where n: "0 < n" "n \<le> length cs" "q = (pre @ [c]) @ take n cs"
          by blast
        have "q = pre @ take (Suc n) (c # cs)" using n by simp
        then show ?thesis
          using new n by (intro disjI2) (auto intro: exI [of _ "Suc n"])
      qed
    next
      case (File x)
      then show ?thesis using Cons.prems Some by simp
    qed
  qed
qed

lemma mkdir_chain_keeps:
  "mkdir_chain name pre cs fs = Inr fs' \<Longrightarrow> fs q = Some nd \<Longrightarrow> fs' q = Some nd"
  using mkdir_chain_frame [of name pre cs fs fs' q] by auto

lemma mkdir_chain_dirs:
  "mkdir_chain name pre cs fs = Inr fs' \<Longrightarrow> 0 < n \<Longrightarrow> n \<le> length cs \<Longrightarrow>
   fs' (pre @ take n cs) = Some Dir"
proof (induction cs arbitrary: pre fs n)
  case Nil
  then show ?case by simp
next
  case (Cons c cs)
  obtain fs1 where rec: "mkdir_chain name (pre @ [c]) cs fs1 = Inr fs'"
    and here: "fs1 (pre @ [c]) = Some Dir"
    using Cons.prems(1) by (auto split: option.splits node.splits)
  show ?case
  proof (cases n)
    case 0
    then show ?thesis using Cons.prems by simp
  next
    case (Suc m)
    show ?thesis
    proof (cases "m = 0")
      case True
      then show ?thesis
        using Suc mkdir_chain_keeps [OF rec here] by simp
    next
      case False
      then have "fs' ((pre @ [c]) @ take m cs) = Some Dir"
        using Cons.IH [OF rec, of m] Cons.prems Suc by simp
      then show ?thesis using Suc by simp
    qed
  qed
qed

lemma mkdir_chain_existing:
  "(\<forall>n. 0 < n \<and> n \<le> length cs \<longrightarrow> fs (pre @ take n cs) = Some Dir) \<Longrightarrow>
   mkdir_chain name pre cs fs = Inr fs"
proof (induction cs arbitrary: pre)
  case Nil
  then show ?case by simp
next
  case (Cons c cs)
  have here: "fs (pre @ [c]) = Some Dir"
    using Cons.prems [rule_format, of 1] by simp
  have "\<forall>n. 0 < n \<and> n \<le> length cs \<longrightarrow> fs ((pre @ [c]) @ take n cs) = Some Dir"
  proof (intro allI impI)
    fix n assume "0 < n \<and> n \<le> length cs"
    then show "fs ((pre @ [c]) @ take n cs) = Some Dir"
      using Cons.prems [rule_format, of "Suc n"] by simp
  qed
  then show ?case
    using Cons.IH [of "pre @ [c]"] here by simp
qed



lemma dir_exists_iff:
  "dir_exists fs name \<longleftrightarrow>
     name \<noteq> [] \<and> (\<forall>n. 0 < n \<and> n \<le> length (split_path name)
                       \<longrightarrow> fs (take n (split_path name)) = Some Dir)"
proof -
  have "(\<forall>n < Suc (length p). node_at fs (take n p) = Some Dir)
        \<longleftrightarrow> (\<forall>n. 0 < n \<and> n \<le> length p \<longrightarrow> fs (take n p) = Some Dir)" for p
  proof (intro iffI allI impI)
    fix n assume a: "\<forall>n < Suc (length p). node_at fs (take n p) = Some Dir"
      and n: "0 < n \<and> n \<le> length p"
    then have "node_at fs (take n p) = Some Dir" by simp
    moreover have "take n p \<noteq> []" using n by auto
    ultimately show "fs (take n p) = Some Dir" by (simp add: node_at_def)
  next
    fix n assume a: "\<forall>n. 0 < n \<and> n \<le> length p \<longrightarrow> fs (take n p) = Some Dir"
      and n: "n < Suc (length p)"
    show "node_at fs (take n p) = Some Dir"
    proof (cases "n = 0")
      case True
      then show ?thesis by (simp add: node_at_def)
    next
      case False
      then show ?thesis using a n by (auto simp: node_at_def)
    qed
  qed
  from this [of "split_path name"] show ?thesis
    unfolding dir_exists_def list_all_iff by (simp only: set_upt atLeast0LessThan Ball_def lessThan_iff)
qed

lemma makedirs_cases:
  obtains (fail) e where "makedirs name fs = (Inl e, fs)"
  | (ok) fs' where "makedirs name fs = (Inr (), fs')" and "name \<noteq> []"
      and "mkdir_chain name [] (split_path name) fs = Inr fs'"
  by (cases "mkdir_chain name [] (split_path name) fs"; cases "name = []")
     (auto simp: makedirs_def)

lemma makedirs_ok_chain:
  "makedirs name fs = (Inr (), fs') \<Longrightarrow>
   name \<noteq> [] \<and> mkdir_chain name [] (split_path name) fs = Inr fs'"
  by (cases name fs rule: makedirs_cases) auto

lemma makedirs_dir_exists: "makedirs name fs = (Inr (), fs') \<Longrightarrow> dir_exists fs' name"
  using mkdir_chain_dirs [of name "[]" "split_path name" fs fs']
  by (auto simp: dir_exists_iff dest!: makedirs_ok_chain)

lemma makedirs_frame:
  assumes "makedirs name fs = (r, fs')"
  shows "fs' q = fs q \<or> (fs q = None \<and> fs' q = Some Dir \<and> q \<in> dir_paths name)"
proof (cases name fs rule: makedirs_cases)
  case (fail e)
  then show ?thesis using assms by simp
next
  case (ok fs1)
  then have "fs' = fs1" using assms by simp
  then show ?thesis
    using mkdir_chain_frame [OF ok(3), of q] by (auto simp: dir_paths_def)
qed

lemma makedirs_existing: "dir_exists fs name \<Longrightarrow> makedirs name fs = (Inr (), fs)"
  using mkdir_chain_existing [of "split_path name" fs "[]" name]
  by (simp add: dir_exists_iff makedirs_def)

lemma load_data_fs: "load_data p fs = (r, fs') \<Longrightarrow> fs' = fs"
  by (auto simp: load_data_def split: option.splits node.splits content.splits)

lemma load_data_missing:
  "fs (split_path name) = None \<or> fs (split_path name) = Some Dir \<Longrightarrow>
   \<exists>e. load_data name fs = (Inl e, fs)"
  by (auto simp: load_data_def node_at_def)

lemma savefig_frame:
  "savefig name c fs = (r, fs') \<Longrightarrow>
   fs' = fs \<or> (fs (split_path name) \<noteq> Some Dir \<and> fs' = fs(split_path name \<mapsto> File (Png c)))"
  by (auto simp: savefig_def Let_def split: if_splits option.splits node.splits)

lemma savefig_ok:
  "split_path name = d @ [f] \<Longrightarrow> node_at fs d = Some Dir \<Longrightarrow> fs (d @ [f]) \<noteq> Some Dir \<Longrightarrow>
   savefig name c fs = (Inr (), fs(d @ [f] \<mapsto> File (Png c)))"
  by (auto simp: savefig_def Let_def split: option.splits node.splits)

subsection \<open>What a computation may change\<close>

lemma changes_onlyI:
  "(\<And>fs r fs' q. m fs = (r, fs') \<Longrightarrow> q \<notin> S \<Longrightarrow> fs' q = fs q) \<Longrightarrow>
   (\<And>fs r fs' q. m fs = (r, fs') \<Longrightarrow> fs q = Some Dir \<Longrightarrow> fs' q = Some Dir) \<Longrightarrow>
   changes_only m S"
  unfolding changes_only_def by blast

lemma changes_only_outside:
  "changes_only m S \<Longrightarrow> m fs = (r, fs') \<Longrightarrow> q \<notin> S \<Longrightarrow> fs' q = fs q"
  unfolding changes_only_def by blast

lemma changes_only_dir:
  "changes_only m S \<Longrightarrow> m fs = (r, fs') \<Longrightarrow> fs q = Some Dir \<Longrightarrow> fs' q = Some Dir"
  unfolding changes_only_def by blast

lemma changes_only_mono: "changes_only m S \<Longrightarrow> S \<subseteq> T \<Longrightarrow> changes_only m T"
  unfolding changes_only_def by blast

lemma changes_only_seq_run:
  assumes "changes_only m S" and "\<And>x. changes_only (f x) S"
  shows "changes_only (seq_run m f) S"
proof (rule changes_onlyI)
  fix fs r fs' q
  assume run: "seq_run m f fs = (r, fs')"
  obtain r1 fs1 where m: "m fs = (r1, fs1)" by (cases "m fs")
  have step: "fs' = fs1 \<or> (\<exists>x. f x fs1 = (r, fs'))"
    using run m by (cases r1) (auto simp: seq_run_def)
  { assume "q \<notin> S"
    then show "fs' q = fs q"
      using step changes_only_outside [OF assms(1) m, of q]
        changes_only_outside [OF assms(2), of _ fs1 r fs' q] by auto }
  { assume "fs q = Some Dir"
    then have "fs1 q = Some Dir" by (rule changes_only_dir [OF assms(1) m])
    then show "fs' q = Some Dir"
      using step changes_only_dir [OF assms(2), of _ fs1 r fs' q] by auto }
qed

lemma changes_only_raise_or_return: "changes_only (raise_or_return r) S"
  by (rule changes_onlyI) (simp_all add: raise_or_return_def)

lemma changes_only_load_data: "changes_only (load_data name) S"
  by (rule changes_onlyI) (auto dest: load_data_fs)

lemma changes_only_savefig: "changes_only (savefig name c) {split_path name}"
proof (rule changes_onlyI)
  fix fs r fs' q
  assume run: "savefig name c fs = (r, fs')"
  { assume "q \<notin> {split_path name}"
    then show "fs' q = fs q" using savefig_frame [OF run] by auto }
  { assume "fs q = Some Dir"
    then show "fs' q = Some Dir" using savefig_frame [OF run] by auto }
qed

lemma changes_only_makedirs: "changes_only (makedirs name) (dir_paths name)"
proof (rule changes_onlyI)
  fix fs r fs' q
  assume run: "makedirs name fs = (r, fs')"
  { assume "q \<notin> dir_paths name"
    then show "fs' q = fs q" using makedirs_frame [OF run, of q] by auto }
  { assume "fs q = Some Dir"
    then show "fs' q = Some Dir" using makedirs_frame [OF run, of q] by auto }
qed

lemma changes_only_plot_io_size:
  "changes_only (plot_io_size seq_data random_data operation device output_dir)
     {split_path (output_dir @ ''/io_size_'' @ device @ ''_'' @ operation @ ''.png'')}"
  unfolding plot_io_size_def
  by (intro changes_only_seq_run changes_only_raise_or_return changes_only_savefig)

lemma changes_only_plot_stride:
  "changes_only (plot_stride stride_data operation device output_dir)
     {split_path (output_dir @ ''/stride_'' @ device @ ''_'' @ operation @ ''.png'')}"
  unfolding plot_stride_def
  by (intro changes_only_seq_run changes_only_raise_or_return changes_only_savefig)

section \<open>Facts about the device orchestrator\<close>

lemma changes_only_process_device:
  "changes_only (process_device device_dir device output_dir)
     (dir_paths output_dir \<union> set (chart_paths output_dir device))"
  (is "changes_only _ ?S")
proof -
  have mk: "changes_only (makedirs output_dir) ?S"
    by (rule changes_only_mono [OF changes_only_makedirs]) simp
  have io: "changes_only (plot_io_size a b operation device output_dir) ?S"
    if "operation = ''read'' \<or> operation = ''write''" for a b operation
    by (rule changes_only_mono [OF changes_only_plot_io_size])
       (use that in \<open>auto simp: chart_paths_def\<close>)
  have st: "changes_only (plot_stride a operation device output_dir) ?S"
    if "operation = ''read'' \<or> operation = ''write''" for a operation
    by (rule changes_only_mono [OF changes_only_plot_stride])
       (use that in \<open>auto simp: chart_paths_def\<close>)
  show ?thesis
    unfolding process_device_def
    by (intro changes_only_seq_run changes_only_load_data mk io st) simp_all
qed

lemma process_device_makedirs_fails:
  "makedirs output_dir fs = (Inl e, fs1) \<Longrightarrow>
   process_device device_dir device output_dir fs = (Inl e, fs1)"
  unfolding process_device_def by (rule seq_run_Inl)


lemma dir_exists_kept:
  assumes "changes_only m S" and "m fs = (r, fs')" and "dir_exists fs name"
  shows "dir_exists fs' name"
  using assms(3) changes_only_dir [OF assms(1,2)] by (auto simp: dir_exists_iff)





lemma load_data_result: "\<exists>r. load_data p fs = (r, fs)"
  by (metis load_data_fs surj_pair)

lemma process_device_load_fails:
  assumes mk: "makedirs output_dir fs = (Inr (), fs1)"
    and f: "f \<in> set input_files"
    and fail: "load_data (device_dir @ ''/'' @ f) fs1 = (Inl e0, fs1)"
  shows "\<exists>e. process_device device_dir device output_dir fs = (Inl e, fs1)"
proof -
  obtain r1 where r1: "load_data (device_dir @ ''/sequential_size_read.csv'') fs1 = (r1, fs1)"
    using load_data_result by blast
  obtain r2 where r2: "load_data (device_dir @ ''/sequential_size_write.csv'') fs1 = (r2, fs1)"
    using load_data_result by blast
  obtain r3 where r3: "load_data (device_dir @ ''/random_read.csv'') fs1 = (r3, fs1)"
    using load_data_result by blast
  obtain r4 where r4: "load_data (device_dir @ ''/random_write.csv'') fs1 = (r4, fs1)"
    using load_data_result by blast
  obtain r5 where r5: "load_data (device_dir @ ''/stride_read.csv'') fs1 = (r5, fs1)"
    using load_data_result by blast
  obtain r6 where r6: "load_data (device_dir @ ''/stride_write.csv'') fs1 = (r6, fs1)"
    using load_data_result by blast
  have some: "(\<exists>e. r1 = Inl e) \<or> (\<exists>e. r2 = Inl e) \<or> (\<exists>e. r3 = Inl e)
              \<or> (\<exists>e. r4 = Inl e) \<or> (\<exists>e. r5 = Inl e) \<or> (\<exists>e. r6 = Inl e)"
    using f fail r1 r2 r3 r4 r5 r6 by (auto simp: input_files_def)
  have "process_device device_dir device output_dir fs =
          (case r1 of Inl e \<Rightarrow> (Inl e, fs1) | Inr seq_read \<Rightarrow>
          (case r2 of Inl e \<Rightarrow> (Inl e, fs1) | Inr seq_write \<Rightarrow>
          (case r3 of Inl e \<Rightarrow> (Inl e, fs1) | Inr random_read \<Rightarrow>
          (case r4 of Inl e \<Rightarrow> (Inl e, fs1) | Inr random_write \<Rightarrow>
          (case r5 of Inl e \<Rightarrow> (Inl e, fs1) | Inr stride_read \<Rightarrow>
          (case r6 of Inl e \<Rightarrow> (Inl e, fs1) | Inr stride_write \<Rightarrow>
             seq_run (plot_io_size seq_read random_read ''read'' device output_dir) (\<lambda>_.
             seq_run (plot_io_size seq_write random_write ''write'' device output_dir) (\<lambda>_.
             seq_run (plot_stride stride_read ''read'' device output_dir) (\<lambda>_.
             plot_stride stride_write ''write'' device output_dir))) fs1))))))"
    unfolding process_device_def
    by (simp add: seq_run_def mk r1 r2 r3 r4 r5 r6 split: sum.splits)
  then show ?thesis
    using some by (auto split: sum.splits)
qed

lemma chart_path_not_dir_path:
  "p \<in> set (chart_paths output_dir device) \<Longrightarrow> p \<notin> dir_paths output_dir"
  using below_not_dir_path [of "CHR ''i''" output_dir]
    below_not_dir_path [of "CHR ''s''" output_dir]
  by (auto simp: chart_paths_def)

text \<open>
  C6. When one of the six input files of the device is missing, the device orchestrator
  raises an error, and all it has done to the file system is what \<open>makedirs\<close> did:
  no renderer ran, and each of the device's four chart paths holds what it held before.
\<close>

theorem missing_input_no_charts:
  assumes "f \<in> set input_files"
    and "fs (split_path (device_dir @ ''/'' @ f)) = None"
  shows "\<exists>e fs'. process_device device_dir device output_dir fs = (Inl e, fs')
           \<and> (fs' = fs \<or> makedirs output_dir fs = (Inr (), fs'))
           \<and> (\<forall>p \<in> set (chart_paths output_dir device). fs' p = fs p)"
proof (cases output_dir fs rule: makedirs_cases)
  case (fail e)
  then show ?thesis
    using process_device_makedirs_fails [OF fail, of device_dir device] by auto
next
  case (ok fs1)
  have "fs1 (split_path (device_dir @ ''/'' @ f)) = None
        \<or> fs1 (split_path (device_dir @ ''/'' @ f)) = Some Dir"
    using makedirs_frame [OF ok(1), of "split_path (device_dir @ ''/'' @ f)"] assms(2) by auto
  then obtain e0 where "load_data (device_dir @ ''/'' @ f) fs1 = (Inl e0, fs1)"
    using load_data_missing by blast
  then obtain e where run: "process_device device_dir device output_dir fs = (Inl e, fs1)"
    using process_device_load_fails [OF ok(1) assms(1)] by blast
  have "fs1 p = fs p" if "p \<in> set (chart_paths output_dir device)" for p
    using makedirs_frame [OF ok(1), of p] chart_path_not_dir_path [OF that] by auto
  then show ?thesis
    using run ok(1) by auto
qed

lemmas fs_eval =
  process_device_def seq_run_def makedirs_def load_data_def split_path_def node_at_def
  complete_inputs_def hdd_incomplete_def device_inputs_def

theorem missing_input_no_charts_witness:
  "process_device ''hdd_benchmark_results'' ''HDD'' ''benchmark_plots'' hdd_incomplete
     = (Inl (FileNotFoundError ''hdd_benchmark_results/stride_read.csv''),
        hdd_incomplete([''benchmark_plots''] \<mapsto> Dir))
   \<and> (hdd_incomplete([''benchmark_plots''] \<mapsto> Dir)) [''benchmark_plots'', ''stride_HDD_read.png'']
       = None"
proof -
  have a: "''stride_read.csv'' \<in> set input_files"
    by (simp add: input_files_def)
  have b: "hdd_incomplete (split_path (''hdd_benchmark_results'' @ ''/'' @ ''stride_read.csv'')) = None"
    by (simp add: hdd_incomplete_def split_path_def)
  have c: "process_device ''hdd_benchmark_results'' ''HDD'' ''benchmark_plots'' hdd_incomplete
     = (Inl (FileNotFoundError ''hdd_benchmark_results/stride_read.csv''),
        hdd_incomplete([''benchmark_plots''] \<mapsto> Dir))"
    by (simp add: fs_eval)
  have d: "hdd_incomplete [''benchmark_plots'', ''stride_HDD_read.png''] = None"
    by (simp add: hdd_incomplete_def complete_inputs_def device_inputs_def)
  show ?thesis
    using missing_input_no_charts [where f = "''stride_read.csv''" and fs = hdd_incomplete
        and device_dir = "''hdd_benchmark_results''" and device = "''HDD''"
        and output_dir = "''benchmark_plots''", OF a b] c d
    by (simp add: chart_paths_def split_path_def)
qed

section \<open>Facts about writing the charts\<close>

lemma savefig_into_dir:
  assumes "p = split_path name" and "p \<noteq> []"
    and "node_at fs (butlast p) = Some Dir" and "fs p \<noteq> Some Dir"
  shows "savefig name c fs = (Inr (), fs(p \<mapsto> File (Png c)))"
proof -
  have "p = butlast p @ [last p]" using assms(2) by simp
  then show ?thesis
    using savefig_ok [of name "butlast p" "last p" fs c] assms by simp
qed

lemma stride_path_nonempty:
  "split_path (output_dir @ ''/stride_'' @ device @ ''_'' @ operation @ ''.png'') \<noteq> []"
  using split_path_below [of "CHR ''s''" output_dir "''tride_'' @ device @ ''_'' @ operation @ ''.png''"]
  by auto

lemma io_size_path_nonempty:
  "split_path (output_dir @ ''/io_size_'' @ device @ ''_'' @ operation @ ''.png'') \<noteq> []"
  using split_path_below [of "CHR ''i''" output_dir "''o_size_'' @ device @ ''_'' @ operation @ ''.png''"]
  by auto

lemma stride_chart_total:
  "stride_table df \<Longrightarrow> no_negative_ci95 df \<Longrightarrow> \<exists>c. stride_chart df operation device = Inr c"
  using stride_bars_total [of df io_sizes "[]"] by (auto simp: stride_chart_def)

lemma list_all2_interval_no_negative:
  "list_all2 interval_above_zero ms cs \<Longrightarrow> \<not> list_ex negative_cell cs"
  by (induction rule: list_all2_induct)
     (auto simp: interval_above_zero_def negative_cell_def split: cell.splits)

lemma measurements_columns:
  assumes "measurements df key"
  shows "key \<in> set (columns df)" and "''mean'' \<in> set (columns df)"
    and "''ci95'' \<in> set (columns df)" and "no_negative_ci95 df"
proof -
  obtain ks ms cs where ks: "get_column df key = Inr ks" and ms: "get_column df ''mean'' = Inr ms"
    and cs: "get_column df ''ci95'' = Inr cs" and ok: "list_all2 interval_above_zero ms cs"
    using assms by (auto simp: measurements_def split: sum.splits)
  show "key \<in> set (columns df)" using ks by (rule get_column_Inr_columns)
  show "''mean'' \<in> set (columns df)" using ms by (rule get_column_Inr_columns)
  show "''ci95'' \<in> set (columns df)" using cs by (rule get_column_Inr_columns)
  show "no_negative_ci95 df"
    using cs list_all2_interval_no_negative [OF ok] by (simp add: no_negative_ci95_def)
qed

lemma valid_stride_tableD:
  "valid_stride_table df \<Longrightarrow> stride_table df \<and> no_negative_ci95 df"
  using measurements_columns [of df "''stride_size''"]
  by (auto simp: valid_stride_table_def stride_table_def)

lemma valid_io_tableD:
  "valid_io_table df \<Longrightarrow> io_table df \<and> no_negative_ci95 df"
  using measurements_columns [of df "''io_size''"]
  by (auto simp: valid_io_table_def io_table_def)

lemma plot_stride_writes:
  assumes "stride_chart df operation device = Inr c"
    and "p = split_path (output_dir @ ''/stride_'' @ device @ ''_'' @ operation @ ''.png'')"
    and "node_at fs (butlast p) = Some Dir" and "fs p \<noteq> Some Dir"
  shows "plot_stride df operation device output_dir fs = (Inr (), fs(p \<mapsto> File (Png c)))"
  unfolding plot_stride_def
  using savefig_into_dir [OF assms(2) _ assms(3,4), of c] stride_path_nonempty assms(2)
  by (simp add: seq_run_def raise_or_return_def assms(1))

text \<open>
  C10 (as amended). Given a target file whose directory exists (and which is not itself
  a directory), the stride renderer raises no error and writes its chart to the target
  for every stride table in which none of the five fixed I/O sizes has a row (the chart
  written then has no series) and for every stride table of valid measurements. It does
  not do so for every table: a series with a negative \<open>ci95\<close> is refused.
\<close>

theorem plot_stride_writes_chart:
  assumes "get_column df ''io_size'' = Inr cs"
    and "(\<forall>n \<in> set io_sizes. \<not> has_rows cs n) \<or> valid_stride_table df"
    and "p = split_path (output_dir @ ''/stride_'' @ device @ ''_'' @ operation @ ''.png'')"
    and "node_at fs (butlast p) = Some Dir" and "fs p \<noteq> Some Dir"
  shows "\<exists>c. plot_stride df operation device output_dir fs = (Inr (), fs(p \<mapsto> File (Png c)))
           \<and> stride_chart df operation device = Inr c
           \<and> ((\<forall>n \<in> set io_sizes. \<not> has_rows cs n) \<longrightarrow> bars c = [])"
proof -
  have "\<exists>bs. stride_bars df io_sizes [] = Inr bs"
    using assms(2)
  proof
    assume "\<forall>n \<in> set io_sizes. \<not> has_rows cs n"
    then show ?thesis using stride_bars_none [OF assms(1)] by blast
  next
    assume "valid_stride_table df"
    then show ?thesis using valid_stride_tableD stride_bars_total by blast
  qed
  then obtain bs where bs: "stride_bars df io_sizes [] = Inr bs" by blast
  then obtain c where c: "stride_chart df operation device = Inr c" and bars: "bars c = bs"
    by (simp add: stride_chart_def)
  have "bs = []" if "\<forall>n \<in> set io_sizes. \<not> has_rows cs n"
    using stride_bars_none [OF assms(1) that, of "[]"] bs by simp
  then have "(\<forall>n \<in> set io_sizes. \<not> has_rows cs n) \<longrightarrow> bars c = []"
    using bars by simp
  then show ?thesis
    using c plot_stride_writes [OF c assms(3,4,5)] by blast
qed

theorem plot_stride_writes_chart_witness:
  "plot_stride stride_other_sizes ''read'' ''HDD'' ''benchmark_plots'' plots_dir
     = (Inr (), plots_dir([''benchmark_plots'', ''stride_HDD_read.png'']
                            \<mapsto> File (Png empty_stride_chart)))
   \<and> bars empty_stride_chart = []
   \<and> plot_stride stride_example ''read'' ''HDD'' ''benchmark_plots'' plots_dir
       = (Inr (), plots_dir([''benchmark_plots'', ''stride_HDD_read.png'']
                              \<mapsto> File (Png stride_example_chart)))"
proof -
  have cs: "get_column stride_other_sizes ''io_size'' = Inr [Num 8192, Num 8192]"
    by (simp add: stride_other_sizes_def get_column_def cell_at_def)
  have z: "(\<forall>n \<in> set io_sizes. \<not> has_rows [Num 8192, Num 8192] n)
           \<or> valid_stride_table stride_other_sizes"
    by (simp add: io_sizes_def has_rows_def)
  have v: "(\<forall>n \<in> set io_sizes. \<not> has_rows [Num 4096, Num 4096, Num 65536, Num 8192] n)
           \<or> valid_stride_table stride_example"
    by (simp add: valid_stride_table_def measurements_def stride_example_def get_column_def
          cell_at_def positive_cell_def interval_above_zero_def)
  have p: "[''benchmark_plots'', ''stride_HDD_read.png'']
             = split_path (''benchmark_plots'' @ ''/stride_'' @ ''HDD'' @ ''_'' @ ''read'' @ ''.png'')"
    by (simp add: split_path_def)
  have d: "node_at plots_dir (butlast [''benchmark_plots'', ''stride_HDD_read.png'']) = Some Dir"
    by (simp add: node_at_def plots_dir_def)
  have n: "plots_dir [''benchmark_plots'', ''stride_HDD_read.png''] \<noteq> Some Dir"
    by (simp add: plots_dir_def)
  have c: "stride_chart stride_other_sizes ''read'' ''HDD'' = Inr empty_stride_chart"
    by (simp add: stride_other_sizes_def empty_stride_chart_def stride_eval)
  have "plot_stride stride_other_sizes ''read'' ''HDD'' ''benchmark_plots'' plots_dir
     = (Inr (), plots_dir([''benchmark_plots'', ''stride_HDD_read.png'']
                            \<mapsto> File (Png empty_stride_chart)))"
    using plot_stride_writes_chart [OF cs z p d n] c by auto
  moreover
  have "plot_stride stride_example ''read'' ''HDD'' ''benchmark_plots'' plots_dir
       = (Inr (), plots_dir([''benchmark_plots'', ''stride_HDD_read.png'']
                              \<mapsto> File (Png stride_example_chart)))"
    using plot_stride_writes_chart [OF stride_example_io_size v p d n] stride_chart_example
    by auto
  ultimately show ?thesis
    by (simp add: empty_stride_chart_def)
qed

theorem plot_stride_negative_ci95_counterexample:
  "plot_stride negative_ci_table ''read'' ''HDD'' ''benchmark_plots'' plots_dir
     = (Inl (ValueError ''yerr must not contain negative values''), plots_dir)"
  by (simp add: plot_stride_def seq_run_def raise_or_return_def negative_ci_table_def
        stride_eval)

lemma io_size_series_accepted:
  assumes "io_table df" and "no_negative_ci95 df"
  shows "\<exists>means ci95. groupby_last df ''io_size'' ''mean'' = Inr means
           \<and> groupby_last df ''io_size'' ''ci95'' = Inr ci95
           \<and> \<not> list_ex negative_cell (values_of ci95)"
proof -
  obtain cs where cs: "get_column df ''ci95'' = Inr cs" and ok: "\<not> list_ex negative_cell cs"
    using no_negative_ci95D [OF assms(2)] by blast
  obtain means where means: "groupby_last df ''io_size'' ''mean'' = Inr means"
    using groupby_last_present [of "''io_size''" df "''mean''"] assms(1)
    by (auto simp: io_table_def)
  obtain ci95 where ci95: "groupby_last df ''io_size'' ''ci95'' = Inr ci95"
    using groupby_last_present [of "''io_size''" df "''ci95''"] assms(1)
    by (auto simp: io_table_def)
  show ?thesis
    using means ci95 groupby_last_no_negative [OF cs ok ci95] by blast
qed

lemma io_size_chart_total:
  assumes "io_table seq_data" and "no_negative_ci95 seq_data"
    and "io_table random_data" and "no_negative_ci95 random_data"
  shows "\<exists>c. io_size_chart seq_data random_data operation device = Inr c"
proof -
  obtain m1 c1 where s: "groupby_last seq_data ''io_size'' ''mean'' = Inr m1"
    "groupby_last seq_data ''io_size'' ''ci95'' = Inr c1"
    "\<not> list_ex negative_cell (values_of c1)"
    using io_size_series_accepted [OF assms(1,2)] by blast
  obtain m2 c2 where r: "groupby_last random_data ''io_size'' ''mean'' = Inr m2"
    "groupby_last random_data ''io_size'' ''ci95'' = Inr c2"
    "\<not> list_ex negative_cell (values_of c2)"
    using io_size_series_accepted [OF assms(3,4)] by blast
  show ?thesis
    by (simp add: io_size_chart_def s r plt_errorbar_accepts)
qed

lemma plot_io_size_writes:
  assumes "io_size_chart seq_data random_data operation device = Inr c"
    and "p = split_path (output_dir @ ''/io_size_'' @ device @ ''_'' @ operation @ ''.png'')"
    and "node_at fs (butlast p) = Some Dir" and "fs p \<noteq> Some Dir"
  shows "plot_io_size seq_data random_data operation device output_dir fs
           = (Inr (), fs(p \<mapsto> File (Png c)))"
  unfolding plot_io_size_def
  using savefig_into_dir [OF assms(2) _ assms(3,4), of c] io_size_path_nonempty assms(2)
  by (simp add: seq_run_def raise_or_return_def assms(1))

lemma csv_atE:
  assumes "csv_at fs p kind"
  obtains df where "fs p = Some (File (Csv df))" and "kind df"
  using assms by (auto simp: csv_at_def split: option.splits node.splits content.splits)

lemma load_data_csv_at:
  assumes "csv_at fs (split_path (device_dir @ CHR ''/'' # c # s)) kind" and "c \<noteq> CHR ''/''"
  obtains df where "load_data (device_dir @ CHR ''/'' # c # s) fs = (Inr df, fs)" and "kind df"
proof -
  obtain df where df: "fs (split_path (device_dir @ CHR ''/'' # c # s)) = Some (File (Csv df))"
    and k: "kind df"
    using assms(1) by (rule csv_atE)
  have "split_path (device_dir @ CHR ''/'' # c # s) \<noteq> []"
    using split_path_below [OF assms(2), of device_dir s] by auto
  then have "load_data (device_dir @ CHR ''/'' # c # s) fs = (Inr df, fs)"
    using df by (simp add: load_data_def node_at_def)
  then show ?thesis using k that by blast
qed

text \<open>
  The orchestrator on a file system where the output directory exists, the inputs are
  valid and each chart can be written: it writes the four charts and nothing else.
\<close>

lemma process_device_writes:
  assumes dir: "dir_exists fs output_dir"
    and inputs: "valid_inputs fs device_dir"
    and paths: "chart_paths output_dir device = [p1, p2, p3, p4]"
    and parents: "\<forall>p \<in> {p1, p2, p3, p4}. node_at fs (butlast p) = Some Dir"
    and free: "\<forall>p \<in> {p1, p2, p3, p4}. fs p \<noteq> Some Dir"
  shows "\<exists>c1 c2 c3 c4. process_device device_dir device output_dir fs =
           (Inr (), fs(p1 \<mapsto> File (Png c1), p2 \<mapsto> File (Png c2),
                       p3 \<mapsto> File (Png c3), p4 \<mapsto> File (Png c4)))"
proof -
  have mk: "makedirs output_dir fs = (Inr (), fs)"
    using dir by (rule makedirs_existing)
  obtain seq_read where l1: "load_data (device_dir @ ''/sequential_size_read.csv'') fs = (Inr seq_read, fs)"
    and t1: "valid_io_table seq_read"
    using inputs by (auto simp: valid_inputs_def elim: load_data_csv_at)
  obtain seq_write where l2: "load_data (device_dir @ ''/sequential_size_write.csv'') fs = (Inr seq_write, fs)"
    and t2: "valid_io_table seq_write"
    using inputs by (auto simp: valid_inputs_def elim: load_data_csv_at)
  obtain random_read where l3: "load_data (device_dir @ ''/random_read.csv'') fs = (Inr random_read, fs)"
    and t3: "valid_io_table random_read"
    using inputs by (auto simp: valid_inputs_def elim: load_data_csv_at)
  obtain random_write where l4: "load_data (device_dir @ ''/random_write.csv'') fs = (Inr random_write, fs)"
    and t4: "valid_io_table random_write"
    using inputs by (auto simp: valid_inputs_def elim: load_data_csv_at)
  obtain stride_read where l5: "load_data (device_dir @ ''/stride_read.csv'') fs = (Inr stride_read, fs)"
    and t5: "valid_stride_table stride_read"
    using inputs by (auto simp: valid_inputs_def elim: load_data_csv_at)
  obtain stride_write where l6: "load_data (device_dir @ ''/stride_write.csv'') fs = (Inr stride_write, fs)"
    and t6: "valid_stride_table stride_write"
    using inputs by (auto simp: valid_inputs_def elim: load_data_csv_at)
  obtain c1 where c1: "io_size_chart seq_read random_read ''read'' device = Inr c1"
    using io_size_chart_total valid_io_tableD [OF t1] valid_io_tableD [OF t3] by blast
  obtain c2 where c2: "io_size_chart seq_write random_write ''write'' device = Inr c2"
    using io_size_chart_total valid_io_tableD [OF t2] valid_io_tableD [OF t4] by blast
  obtain c3 where c3: "stride_chart stride_read ''read'' device = Inr c3"
    using stride_chart_total valid_stride_tableD [OF t5] by blast
  obtain c4 where c4: "stride_chart stride_write ''write'' device = Inr c4"
    using stride_chart_total valid_stride_tableD [OF t6] by blast
  have p1: "p1 = split_path (output_dir @ ''/io_size_'' @ device @ ''_'' @ ''read'' @ ''.png'')"
    and p2: "p2 = split_path (output_dir @ ''/io_size_'' @ device @ ''_'' @ ''write'' @ ''.png'')"
    and p3: "p3 = split_path (output_dir @ ''/stride_'' @ device @ ''_'' @ ''read'' @ ''.png'')"
    and p4: "p4 = split_path (output_dir @ ''/stride_'' @ device @ ''_'' @ ''write'' @ ''.png'')"
    using paths by (simp_all add: chart_paths_def)
  have ne: "p1 \<noteq> []" "p2 \<noteq> []" "p3 \<noteq> []" "p4 \<noteq> []"
    unfolding p1 p2 p3 p4
    by (rule io_size_path_nonempty io_size_path_nonempty stride_path_nonempty
          stride_path_nonempty)+
  have apart: "butlast p \<noteq> q" if "p \<in> {p1, p2, p3, p4}" "q \<in> {p1, p2, p3, p4}" for p q
  proof
    assume eq: "butlast p = q"
    have "node_at fs q = Some Dir" using parents that(1) eq by blast
    moreover have "q \<noteq> []"
      using that(2) ne by auto
    ultimately show False using free that(2) by (auto simp: node_at_def)
  qed
  define fs1 where "fs1 = fs(p1 \<mapsto> File (Png c1))"
  define fs2 where "fs2 = fs1(p2 \<mapsto> File (Png c2))"
  define fs3 where "fs3 = fs2(p3 \<mapsto> File (Png c3))"
  define fs4 where "fs4 = fs3(p4 \<mapsto> File (Png c4))"
  have w1: "plot_io_size seq_read random_read ''read'' device output_dir fs = (Inr (), fs1)"
    unfolding fs1_def using parents free by (intro plot_io_size_writes [OF c1 p1]) auto
  have w2: "plot_io_size seq_write random_write ''write'' device output_dir fs1 = (Inr (), fs2)"
    unfolding fs2_def
  proof (rule plot_io_size_writes [OF c2 p2])
    show "node_at fs1 (butlast p2) = Some Dir"
      using parents apart [of p2 p1] by (auto simp: fs1_def node_at_def)
    show "fs1 p2 \<noteq> Some Dir" using free by (auto simp: fs1_def)
  qed
  have w3: "plot_stride stride_read ''read'' device output_dir fs2 = (Inr (), fs3)"
    unfolding fs3_def
  proof (rule plot_stride_writes [OF c3 p3])
    show "node_at fs2 (butlast p3) = Some Dir"
      using parents apart [of p3 p1] apart [of p3 p2] by (auto simp: fs1_def fs2_def node_at_def)
    show "fs2 p3 \<noteq> Some Dir" using free by (auto simp: fs1_def fs2_def)
  qed
  have w4: "plot_stride stride_write ''write'' device output_dir fs3 = (Inr (), fs4)"
    unfolding fs4_def
  proof (rule plot_stride_writes [OF c4 p4])
    show "node_at fs3 (butlast p4) = Some Dir"
      using parents apart [of p4 p1] apart [of p4 p2] apart [of p4 p3]
      by (auto simp: fs1_def fs2_def fs3_def node_at_def)
    show "fs3 p4 \<noteq> Some Dir" using free by (auto simp: fs1_def fs2_def fs3_def)
  qed
  have "process_device device_dir device output_dir fs = (Inr (), fs4)"
    unfolding process_device_def
    by (simp add: seq_run_def mk l1 l2 l3 l4 l5 l6 w1 w2 w3 w4)
  then show ?thesis
    unfolding fs4_def fs3_def fs2_def fs1_def by blast
qed

lemma makedirs_plots:
  "fs [''benchmark_plots''] = None \<or> fs [''benchmark_plots''] = Some Dir \<Longrightarrow>
   makedirs ''benchmark_plots'' fs = (Inr (), fs([''benchmark_plots''] \<mapsto> Dir))"
  by (auto simp: makedirs_def split_path_def fun_upd_idem)

lemma chart_paths_hdd: "chart_paths ''benchmark_plots'' ''HDD'' = hdd_chart_paths"
  by (simp add: chart_paths_def split_path_def hdd_chart_paths_def)

lemma chart_paths_ssd: "chart_paths ''benchmark_plots'' ''SSD'' = ssd_chart_paths"
  by (simp add: chart_paths_def split_path_def ssd_chart_paths_def)

lemma valid_inputs_hdd_cong:
  assumes "valid_inputs fs ''hdd_benchmark_results''"
    and "\<And>f. fs' [''hdd_benchmark_results'', f] = fs [''hdd_benchmark_results'', f]"
  shows "valid_inputs fs' ''hdd_benchmark_results''"
  using assms by (simp add: valid_inputs_def csv_at_def split_path_def)

lemma valid_inputs_ssd_cong:
  assumes "valid_inputs fs ''ssd_benchmark_results''"
    and "\<And>f. fs' [''ssd_benchmark_results'', f] = fs [''ssd_benchmark_results'', f]"
  shows "valid_inputs fs' ''ssd_benchmark_results''"
  using assms by (simp add: valid_inputs_def csv_at_def split_path_def)

text \<open>
  C5. A run on a file system that holds the six input files of each of the two devices,
  each a table of valid measurements, where the output directory is absent or a
  directory, ends without error and has written exactly eight PNG files, four per
  device, all in \<open>benchmark_plots\<close>: \<open>io_size_D_o.png\<close> and \<open>stride_D_o.png\<close> for
  \<open>D\<close> in HDD, SSD and \<open>o\<close> in read, write. Apart from these and the output
  directory, the file system is unchanged.
\<close>

theorem main_writes_eight_charts:
  assumes hdd: "valid_inputs fs ''hdd_benchmark_results''"
    and ssd: "valid_inputs fs ''ssd_benchmark_results''"
    and out: "fs [''benchmark_plots''] = None \<or> fs [''benchmark_plots''] = Some Dir"
    and free: "list_all (\<lambda>p. fs p \<noteq> Some Dir) main_chart_paths"
  shows "\<exists>fs'. main fs = (Inr (), fs')
           \<and> list_all (png_at fs') main_chart_paths
           \<and> (\<forall>q. q \<notin> set main_chart_paths \<and> q \<noteq> [''benchmark_plots''] \<longrightarrow> fs' q = fs q)
           \<and> fs' [''benchmark_plots''] = Some Dir
           \<and> distinct main_chart_paths \<and> length main_chart_paths = 8
           \<and> main_chart_paths =
               [[''benchmark_plots'', ''io_size_HDD_read.png''],
                [''benchmark_plots'', ''io_size_HDD_write.png''],
                [''benchmark_plots'', ''stride_HDD_read.png''],
                [''benchmark_plots'', ''stride_HDD_write.png''],
                [''benchmark_plots'', ''io_size_SSD_read.png''],
                [''benchmark_plots'', ''io_size_SSD_write.png''],
                [''benchmark_plots'', ''stride_SSD_read.png''],
                [''benchmark_plots'', ''stride_SSD_write.png'']]"
proof -
  define fs1 where "fs1 = fs([''benchmark_plots''] \<mapsto> Dir)"
  have mk: "makedirs ''benchmark_plots'' fs = (Inr (), fs1)"
    unfolding fs1_def using out by (rule makedirs_plots)
  have dir1: "dir_exists fs1 ''benchmark_plots''"
    using mk by (rule makedirs_dir_exists)
  have hdd1: "valid_inputs fs1 ''hdd_benchmark_results''"
    by (rule valid_inputs_hdd_cong [OF hdd]) (simp add: fs1_def)
  have free1: "\<forall>p \<in> set main_chart_paths. fs1 p \<noteq> Some Dir"
    using free by (simp add: fs1_def main_chart_paths_def hdd_chart_paths_def
        ssd_chart_paths_def)
  have par1: "\<forall>p \<in> set main_chart_paths. node_at fs1 (butlast p) = Some Dir"
    by (simp add: fs1_def main_chart_paths_def hdd_chart_paths_def ssd_chart_paths_def
        node_at_def)
  obtain c1 c2 c3 c4 where run_hdd:
    "process_device ''hdd_benchmark_results'' ''HDD'' ''benchmark_plots'' fs1 =
       (Inr (), fs1([''benchmark_plots'', ''io_size_HDD_read.png''] \<mapsto> File (Png c1),
                    [''benchmark_plots'', ''io_size_HDD_write.png''] \<mapsto> File (Png c2),
                    [''benchmark_plots'', ''stride_HDD_read.png''] \<mapsto> File (Png c3),
                    [''benchmark_plots'', ''stride_HDD_write.png''] \<mapsto> File (Png c4)))"
    using process_device_writes [OF dir1 hdd1, of "''HDD''"
        "[''benchmark_plots'', ''io_size_HDD_read.png'']"
        "[''benchmark_plots'', ''io_size_HDD_write.png'']"
        "[''benchmark_plots'', ''stride_HDD_read.png'']"
        "[''benchmark_plots'', ''stride_HDD_write.png'']"] free1 par1
    by (auto simp: chart_paths_hdd hdd_chart_paths_def main_chart_paths_def)
  define fs2 where
    "fs2 = fs1([''benchmark_plots'', ''io_size_HDD_read.png''] \<mapsto> File (Png c1),
               [''benchmark_plots'', ''io_size_HDD_write.png''] \<mapsto> File (Png c2),
               [''benchmark_plots'', ''stride_HDD_read.png''] \<mapsto> File (Png c3),
               [''benchmark_plots'', ''stride_HDD_write.png''] \<mapsto> File (Png c4))"
  have run_hdd': "process_device ''hdd_benchmark_results'' ''HDD'' ''benchmark_plots'' fs1
                    = (Inr (), fs2)"
    using run_hdd by (simp add: fs2_def)
  have dir2: "dir_exists fs2 ''benchmark_plots''"
    using dir_exists_kept [OF changes_only_process_device run_hdd' dir1] .
  have ssd2: "valid_inputs fs2 ''ssd_benchmark_results''"
    by (rule valid_inputs_ssd_cong [OF ssd]) (simp add: fs2_def fs1_def)
  have free2: "\<forall>p \<in> set ssd_chart_paths. fs2 p \<noteq> Some Dir"
    using free1 by (simp add: fs2_def main_chart_paths_def ssd_chart_paths_def)
  have par2: "\<forall>p \<in> set ssd_chart_paths. node_at fs2 (butlast p) = Some Dir"
    by (simp add: fs2_def fs1_def ssd_chart_paths_def node_at_def)
  obtain d1 d2 d3 d4 where run_ssd:
    "process_device ''ssd_benchmark_results'' ''SSD'' ''benchmark_plots'' fs2 =
       (Inr (), fs2([''benchmark_plots'', ''io_size_SSD_read.png''] \<mapsto> File (Png d1),
                    [''benchmark_plots'', ''io_size_SSD_write.png''] \<mapsto> File (Png d2),
                    [''benchmark_plots'', ''stride_SSD_read.png''] \<mapsto> File (Png d3),
                    [''benchmark_plots'', ''stride_SSD_write.png''] \<mapsto> File (Png d4)))"
    using process_device_writes [OF dir2 ssd2, of "''SSD''"
        "[''benchmark_plots'', ''io_size_SSD_read.png'']"
        "[''benchmark_plots'', ''io_size_SSD_write.png'']"
        "[''benchmark_plots'', ''stride_SSD_read.png'']"
        "[''benchmark_plots'', ''stride_SSD_write.png'']"] free2 par2
    by (auto simp: chart_paths_ssd ssd_chart_paths_def)
  define fs3 where
    "fs3 = fs2([''benchmark_plots'', ''io_size_SSD_read.png''] \<mapsto> File (Png d1),
               [''benchmark_plots'', ''io_size_SSD_write.png''] \<mapsto> File (Png d2),
               [''benchmark_plots'', ''stride_SSD_read.png''] \<mapsto> File (Png d3),
               [''benchmark_plots'', ''stride_SSD_write.png''] \<mapsto> File (Png d4))"
  have run: "main fs = (Inr (), fs3)"
    using mk run_hdd' run_ssd by (simp add: main_def Let_def seq_run_def fs3_def)
  have pngs: "list_all (png_at fs3) main_chart_paths"
    by (simp add: fs3_def fs2_def png_at_def main_chart_paths_def hdd_chart_paths_def
        ssd_chart_paths_def)
  have frame: "\<forall>q. q \<notin> set main_chart_paths \<and> q \<noteq> [''benchmark_plots''] \<longrightarrow> fs3 q = fs q"
    by (simp add: fs3_def fs2_def fs1_def main_chart_paths_def hdd_chart_paths_def
        ssd_chart_paths_def)
  have dir3: "fs3 [''benchmark_plots''] = Some Dir"
    by (simp add: fs3_def fs2_def fs1_def)
  have names: "distinct main_chart_paths \<and> length main_chart_paths = 8
     \<and> main_chart_paths =
               [[''benchmark_plots'', ''io_size_HDD_read.png''],
                [''benchmark_plots'', ''io_size_HDD_write.png''],
                [''benchmark_plots'', ''stride_HDD_read.png''],
                [''benchmark_plots'', ''stride_HDD_write.png''],
                [''benchmark_plots'', ''io_size_SSD_read.png''],
                [''benchmark_plots'', ''io_size_SSD_write.png''],
                [''benchmark_plots'', ''stride_SSD_read.png''],
                [''benchmark_plots'', ''stride_SSD_write.png'']]"
    by (simp add: main_chart_paths_def hdd_chart_paths_def ssd_chart_paths_def)
  show ?thesis
    using run pngs frame dir3 names by blast
qed

lemmas example_tables =
  example_table_def descending_table_def stride_example_def stride_other_sizes_def

lemma valid_inputs_complete:
  "valid_inputs complete_inputs ''hdd_benchmark_results''"
  "valid_inputs complete_inputs ''ssd_benchmark_results''"
  by (simp_all add: valid_inputs_def csv_at_def split_path_def complete_inputs_def
        device_inputs_def valid_io_table_def valid_stride_table_def measurements_def
        get_column_def cell_at_def positive_cell_def interval_above_zero_def example_tables)

theorem main_writes_eight_charts_witness:
  "fst (main complete_inputs) = Inr ()
   \<and> list_all (png_at (snd (main complete_inputs))) main_chart_paths
   \<and> snd (main complete_inputs) [''benchmark_plots''] = Some Dir"
proof -
  have out: "complete_inputs [''benchmark_plots''] = None
             \<or> complete_inputs [''benchmark_plots''] = Some Dir"
    by (simp add: complete_inputs_def device_inputs_def)
  have free: "list_all (\<lambda>p. complete_inputs p \<noteq> Some Dir) main_chart_paths"
    by (simp add: complete_inputs_def device_inputs_def main_chart_paths_def
          hdd_chart_paths_def ssd_chart_paths_def)
  show ?thesis
    using main_writes_eight_charts [OF valid_inputs_complete out free] by auto
qed

lemma ssd_chart_path_untouched:
  assumes "p \<in> set ssd_chart_paths"
  shows "p \<notin> dir_paths ''benchmark_plots'' \<union> set (chart_paths ''benchmark_plots'' ''HDD'')"
proof -
  have "p \<notin> dir_paths ''benchmark_plots''"
    using chart_path_not_dir_path [of p "''benchmark_plots''" "''SSD''"] assms
    by (simp add: chart_paths_ssd)
  moreover have "p \<notin> set hdd_chart_paths"
    using assms by (auto simp: ssd_chart_paths_def hdd_chart_paths_def)
  ultimately show ?thesis by (simp add: chart_paths_hdd)
qed

text \<open>
  C8. The entry point runs the HDD device to its end before it starts the SSD device:
  when the HDD's processing succeeds, the run continues with the SSD on the file system
  the HDD left; when it raises, the run ends with that error and no SSD chart path has
  been written.
\<close>

theorem hdd_before_ssd:
  assumes "makedirs ''benchmark_plots'' fs = (Inr (), fs1)"
    and "process_device ''hdd_benchmark_results'' ''HDD'' ''benchmark_plots'' fs1 = (r, fs2)"
  shows "case r of
           Inl e \<Rightarrow> main fs = (Inl e, fs2) \<and> list_all (\<lambda>p. fs2 p = fs p) ssd_chart_paths
         | Inr u \<Rightarrow> main fs = process_device ''ssd_benchmark_results'' ''SSD'' ''benchmark_plots'' fs2"
proof (cases r)
  case (Inl e)
  have "fs2 p = fs p" if p: "p \<in> set ssd_chart_paths" for p
  proof -
    have "fs2 p = fs1 p"
      using changes_only_outside [OF changes_only_process_device assms(2)]
        ssd_chart_path_untouched [OF p] by blast
    moreover have "fs1 p = fs p"
      using makedirs_frame [OF assms(1), of p] ssd_chart_path_untouched [OF p] by auto
    ultimately show ?thesis by simp
  qed
  then have "list_all (\<lambda>p. fs2 p = fs p) ssd_chart_paths"
    by (simp add: list_all_iff)
  moreover have "main fs = (Inl e, fs2)"
    using assms Inl by (simp add: main_def Let_def seq_run_def)
  ultimately show ?thesis using Inl by simp
next
  case (Inr u)
  then show ?thesis
    using assms by (simp add: main_def Let_def seq_run_def)
qed

theorem hdd_before_ssd_witness:
  "main hdd_incomplete
     = (Inl (FileNotFoundError ''hdd_benchmark_results/stride_read.csv''),
        hdd_incomplete([''benchmark_plots''] \<mapsto> Dir))
   \<and> valid_inputs hdd_incomplete ''ssd_benchmark_results''
   \<and> list_all (\<lambda>p. (hdd_incomplete([''benchmark_plots''] \<mapsto> Dir)) p = None) ssd_chart_paths"
proof -
  have none: "hdd_incomplete [''benchmark_plots''] = None"
    by (simp add: hdd_incomplete_def complete_inputs_def device_inputs_def)
  have mk: "makedirs ''benchmark_plots'' hdd_incomplete
              = (Inr (), hdd_incomplete([''benchmark_plots''] \<mapsto> Dir))"
    by (rule makedirs_plots) (simp add: none)
  have run: "process_device ''hdd_benchmark_results'' ''HDD'' ''benchmark_plots''
               (hdd_incomplete([''benchmark_plots''] \<mapsto> Dir))
             = (Inl (FileNotFoundError ''hdd_benchmark_results/stride_read.csv''),
                hdd_incomplete([''benchmark_plots''] \<mapsto> Dir))"
    by (simp add: fs_eval)
  have ssd: "valid_inputs hdd_incomplete ''ssd_benchmark_results''"
    by (rule valid_inputs_ssd_cong [OF valid_inputs_complete(2)]) (simp add: hdd_incomplete_def)
  have "list_all (\<lambda>p. hdd_incomplete p = None) ssd_chart_paths"
    by (simp add: ssd_chart_paths_def hdd_incomplete_def complete_inputs_def device_inputs_def)
  then show ?thesis
    using hdd_before_ssd [OF mk run] ssd by (simp add: ssd_chart_paths_def)
qed

end
